theory Spec2Isabelle
  imports Complex_Main
begin

section \<open>Configuration constants\<close>

text \<open>
  \<^verbatim>\<open>game.py\<close>, \<^verbatim>\<open>obstacles.py\<close>, \<^verbatim>\<open>player.py\<close> and \<^verbatim>\<open>audio.py\<close> take their constants
  from \<^verbatim>\<open>config\<close> by \<^verbatim>\<open>from config import *\<close>.  The values below are those of the
  \<^verbatim>\<open>Config\<close> block of \<^verbatim>\<open>one_file_version.py\<close> (lines 35-59), which the specification
  repeats (\<^verbatim>\<open>LANES=10\<close>, \<^verbatim>\<open>PLAYER_X=100\<close>, \<^verbatim>\<open>HIGH_TH (2.2)\<close>, and so on).

  Python floats are idealised as real numbers throughout: positions, energies and ratios
  are values of type \<^typ>\<open>real\<close> and float arithmetic is exact arithmetic.  The doubles
  nearest to 2.2 and 1.05 lie above them with no double in between, and 1.5 is a
  double, so a double compares with the thresholds as it does with the decimals.
\<close>

definition SCREEN_W :: int where "SCREEN_W = 800"
definition LANES :: int where "LANES = 10"
definition PLAYER_X :: int where "PLAYER_X = 100"
definition OBSTACLE_SPEED :: int where "OBSTACLE_SPEED = 300"
definition SPAWN_AHEAD_PIXELS :: int where "SPAWN_AHEAD_PIXELS = 900"
definition WINDOW_MS :: nat where "WINDOW_MS = 100"
definition ENERGY_BASELINE_BUFFER :: nat where "ENERGY_BASELINE_BUFFER = 50"

definition LOW_TH :: real where "LOW_TH = 1.05"
definition MEDIUM_TH :: real where "MEDIUM_TH = 1.5"
definition HIGH_TH :: real where "HIGH_TH = 2.2"

definition LOW_SIZES :: "int list" where "LOW_SIZES = [1, 1, 2]"
definition MEDIUM_SIZES :: "int list" where "MEDIUM_SIZES = [2, 3]"
definition HIGH_SIZES :: "int list" where "HIGH_SIZES = [4, 5, 6]"

definition MIN_SPAWN_INTERVAL_MS :: int where "MIN_SPAWN_INTERVAL_MS = 150"
definition HEAVY_COOLDOWN_MS :: int where "HEAVY_COOLDOWN_MS = 600"

section \<open>Obstacles (\<^verbatim>\<open>obstacles.py\<close>)\<close>

text \<open>
  \<^verbatim>\<open>class Obstacle\<close>: the fields of \<^verbatim>\<open>__init__\<close>.  \<^verbatim>\<open>x\<close> becomes a float as soon as
  \<^verbatim>\<open>update\<close> has run, so it is a real; \<^verbatim>\<open>width\<close> is always the default \<^verbatim>\<open>width_px=40\<close>.
\<close>

record obstacle =
  lane_start :: int
  lane_count :: int
  ob_x :: real
  ob_width :: int
  passed :: bool

definition Obstacle :: "int \<Rightarrow> int \<Rightarrow> real \<Rightarrow> obstacle" where
  "Obstacle ls lc x_pos =
     \<lparr>lane_start = ls, lane_count = lc, ob_x = x_pos, ob_width = 40, passed = False\<rparr>"

text \<open>\<^verbatim>\<open>Obstacle.update\<close>: \<^verbatim>\<open>self.x -= OBSTACLE_SPEED * dt\<close>.\<close>

definition obstacle_update :: "real \<Rightarrow> obstacle \<Rightarrow> obstacle" where
  "obstacle_update dt ob = ob\<lparr>ob_x := ob_x ob - real_of_int OBSTACLE_SPEED * dt\<rparr>"

text \<open>\<^verbatim>\<open>class ObstacleManager\<close>.\<close>

record obstacle_manager =
  obstacles :: "obstacle list"
  last_spawn_ms :: int
  last_heavy_ms :: int

definition ObstacleManager :: obstacle_manager where
  "ObstacleManager = \<lparr>obstacles = [], last_spawn_ms = - 10000, last_heavy_ms = - 10000\<rparr>"

text \<open>The spawn edge \<^verbatim>\<open>x_pos = SCREEN_W + SPAWN_AHEAD_PIXELS\<close>.\<close>

definition spawn_x :: int where
  "spawn_x = SCREEN_W + SPAWN_AHEAD_PIXELS"

text \<open>\<^verbatim>\<open>ObstacleManager.spawn\<close>.\<close>

definition spawn :: "int \<Rightarrow> int \<Rightarrow> int \<Rightarrow> obstacle_manager \<Rightarrow> obstacle_manager" where
  "spawn ls lc current_time_ms m =
     (let m1 = m\<lparr>obstacles := obstacles m @ [Obstacle ls lc (real_of_int spawn_x)]\<rparr>;
          m2 = m1\<lparr>last_spawn_ms := current_time_ms\<rparr>
      in if lc \<ge> 4 then m2\<lparr>last_heavy_ms := current_time_ms\<rparr> else m2)"

text \<open>
  \<^verbatim>\<open>ObstacleManager.update\<close>: every obstacle moves, then those with
  \<^verbatim>\<open>o.x + o.width > -50\<close> are kept.
\<close>

definition manager_update :: "real \<Rightarrow> int \<Rightarrow> obstacle_manager \<Rightarrow> obstacle_manager" where
  "manager_update dt current_time_ms m =
     m\<lparr>obstacles :=
         filter (\<lambda>ob. ob_x ob + real_of_int (ob_width ob) > - 50)
           (map (obstacle_update dt) (obstacles m))\<rparr>"





section \<open>Audio analysis (\<^verbatim>\<open>audio.py\<close>)\<close>

text \<open>The exceptions that the modelled code can raise.\<close>

datatype error = ValueError | ZeroDivisionError | IndexError

text \<open>
  What \<^verbatim>\<open>AudioSegment.from_file\<close> hands to the analyzer: the frame rate, the number of
  channels and the interleaved integer PCM samples of \<^verbatim>\<open>get_array_of_samples()\<close>.
\<close>

record audio_segment =
  frame_rate :: nat
  channels :: nat
  array_of_samples :: "int list"

text \<open>\<^verbatim>\<open>clamp(v, a, b) = max(a, min(b, v))\<close>.\<close>

definition clamp :: "int \<Rightarrow> int \<Rightarrow> int \<Rightarrow> int" where
  "clamp v a b = max a (min b v)"

text \<open>Python's \<^verbatim>\<open>int(x)\<close> on a float: truncation towards zero.\<close>

definition py_int :: "real \<Rightarrow> int" where
  "py_int v = (if v \<ge> 0 then \<lfloor>v\<rfloor> else \<lceil>v\<rceil>)"

text \<open>
  \<^verbatim>\<open>samples.reshape((-1, channels)).mean(axis=1)\<close>, done only when there is more than
  one channel: frame \<open>i\<close> is the mean of \<open>channels\<close> consecutive samples.  \<^verbatim>\<open>reshape\<close>
  raises \<^verbatim>\<open>ValueError\<close> when the length is not a multiple of the channel count.
\<close>

definition to_mono :: "audio_segment \<Rightarrow> error + real list" where
  "to_mono au =
     (let s = map real_of_int (array_of_samples au); c = channels au
      in if c > 1 then
           (if length s mod c \<noteq> 0 then Inl ValueError
            else Inr (map (\<lambda>i. sum_list (take c (drop (i * c) s)) / real c)
                        [0 ..< length s div c]))
         else Inr s)"

text \<open>
  \<^verbatim>\<open>np.max\<close>: the maximum of an array; on an array of size zero it raises
  \<^verbatim>\<open>ValueError\<close> (zero-size array to reduction operation maximum which has no identity).
\<close>

fun np_max :: "real list \<Rightarrow> error + real" where
  "np_max [] = Inl ValueError"
| "np_max (v # vs) = Inr (fold max vs v)"

text \<open>
  \<^verbatim>\<open>maxv = np.max(np.abs(self.samples)) or 1.0\<close> and
  \<^verbatim>\<open>self.samples = self.samples / maxv\<close>.
\<close>

definition normalize :: "real list \<Rightarrow> error + real list" where
  "normalize s =
     (case np_max (map abs s) of
        Inl e \<Rightarrow> Inl e
      | Inr m \<Rightarrow> (let maxv = (if m = 0 then 1 else m) in Inr (map (\<lambda>v. v / maxv) s)))"

text \<open>
  \<^verbatim>\<open>samples_per_window = int(sample_rate * (window_ms / 1000.0))\<close> and
  \<^verbatim>\<open>num_windows = max(1, int(math.ceil(len(samples) / float(samples_per_window))))\<close>;
  the float division raises \<^verbatim>\<open>ZeroDivisionError\<close> when \<^verbatim>\<open>samples_per_window\<close> is 0.
\<close>

definition samples_per_window_of :: "nat \<Rightarrow> nat \<Rightarrow> nat" where
  "samples_per_window_of rate window_ms =
     nat (py_int (real rate * (real window_ms / 1000)))"

definition num_windows_of :: "nat \<Rightarrow> nat \<Rightarrow> error + nat" where
  "num_windows_of n spw =
     (if spw = 0 then Inl ZeroDivisionError
      else Inr (max 1 (nat \<lceil>real n / real spw\<rceil>)))"

text \<open>
  \<^verbatim>\<open>_compute_energy\<close>: window \<open>i\<close> is the slice \<^verbatim>\<open>samples[i*spw : i*spw + spw]\<close>
  (a Python slice is cut at the end of the array), and its energy is
  \<^verbatim>\<open>sum(window * window) / (len(window) + 1e-9)\<close>.
\<close>

definition window_slice :: "real list \<Rightarrow> nat \<Rightarrow> nat \<Rightarrow> real list" where
  "window_slice s spw i = take spw (drop (i * spw) s)"

definition window_energy :: "real list \<Rightarrow> real" where
  "window_energy w = sum_list (map (\<lambda>v. v * v) w) / (real (length w) + 1 / 10 ^ 9)"

definition compute_energy :: "real list \<Rightarrow> nat \<Rightarrow> nat \<Rightarrow> real list" where
  "compute_energy s spw nw = map (\<lambda>i. window_energy (window_slice s spw i)) [0 ..< nw]"

text \<open>
  \<^verbatim>\<open>_compute_running_baseline\<close>.  The loop over \<^verbatim>\<open>enumerate(self.energy)\<close> carries the
  running sum \<^verbatim>\<open>cum\<close> and the deque \<^verbatim>\<open>dq\<close>; it produces one baseline entry per energy,
  and \<^verbatim>\<open>baseline += 1e-9\<close> is applied to all of them at the end.
\<close>

fun baseline_loop :: "nat \<Rightarrow> real \<Rightarrow> real list \<Rightarrow> real list \<Rightarrow> real list" where
  "baseline_loop N cum dq [] = []"
| "baseline_loop N cum dq (e # es) =
     (let dq1 = dq @ [e];
          cum1 = cum + e;
          cum2 = (if length dq1 > N then cum1 - hd dq1 else cum1);
          dq2 = (if length dq1 > N then tl dq1 else dq1)
      in (cum2 / real (length dq2)) # baseline_loop N cum2 dq2 es)"

definition compute_running_baseline :: "nat \<Rightarrow> real list \<Rightarrow> real list" where
  "compute_running_baseline N en = map (\<lambda>b. b + 1 / 10 ^ 9) (baseline_loop N 0 [] en)"

text \<open>
  The analyzer object after \<^verbatim>\<open>__init__\<close>.  It is a value: no later code assigns
  to \<^verbatim>\<open>energy\<close>, \<^verbatim>\<open>baseline\<close> or \<^verbatim>\<open>num_windows\<close>.
\<close>

record analyzer =
  ms_per_window :: nat
  sample_rate :: nat
  samples :: "real list"
  samples_per_window :: nat
  num_windows :: nat
  energy :: "real list"
  baseline :: "real list"

text \<open>\<^verbatim>\<open>AudioAnalyzer.__init__\<close>, from the decoded audio on.\<close>

definition AudioAnalyzer_init :: "audio_segment \<Rightarrow> nat \<Rightarrow> error + analyzer" where
  "AudioAnalyzer_init au window_ms =
     (case to_mono au of
        Inl e \<Rightarrow> Inl e
      | Inr mono_samples \<Rightarrow>
          (case normalize mono_samples of
             Inl e \<Rightarrow> Inl e
           | Inr s \<Rightarrow>
               (let spw = samples_per_window_of (frame_rate au) window_ms
                in case num_windows_of (length s) spw of
                     Inl e \<Rightarrow> Inl e
                   | Inr nw \<Rightarrow>
                       (let en = compute_energy s spw nw
                        in Inr \<lparr>ms_per_window = window_ms, sample_rate = frame_rate au,
                                samples = s, samples_per_window = spw, num_windows = nw,
                                energy = en,
                                baseline = compute_running_baseline ENERGY_BASELINE_BUFFER en\<rparr>))))"

text \<open>
  \<^verbatim>\<open>get_window_index_for_ms\<close>: \<^verbatim>\<open>idx = int(ms_since_start / self.ms_per_window)\<close>, then
  \<^verbatim>\<open>clamp(idx, 0, self.num_windows - 1)\<close>.  The timestamp is the integer millisecond
  count of \<^verbatim>\<open>Game.ms_since_start\<close>.
\<close>

definition get_window_index_for_ms :: "analyzer \<Rightarrow> int \<Rightarrow> error + int" where
  "get_window_index_for_ms a ms_since_start =
     (if ms_per_window a = 0 then Inl ZeroDivisionError
      else (let idx = py_int (real_of_int ms_since_start / real (ms_per_window a))
            in Inr (clamp idx 0 (int (num_windows a) - 1))))"

text \<open>
  \<^verbatim>\<open>array[idx]\<close> with an integer index: an index below zero is taken from the end of
  the array, and an index outside the array raises \<^verbatim>\<open>IndexError\<close>.
\<close>

definition np_get :: "real list \<Rightarrow> int \<Rightarrow> error + real" where
  "np_get vs i =
     (if i < - int (length vs) \<or> int (length vs) \<le> i then Inl IndexError
      else if i < 0 then Inr (vs ! nat (int (length vs) + i))
      else Inr (vs ! nat i))"

text \<open>
  The first four lines of \<^verbatim>\<open>Game.spawn_logic\<close>: the index, the energy, the baseline
  and \<^verbatim>\<open>ratio = energy / baseline\<close>, a division of Python floats, which raises
  \<^verbatim>\<open>ZeroDivisionError\<close> on a zero baseline.
\<close>

definition ratio_for_ms :: "analyzer \<Rightarrow> int \<Rightarrow> error + real" where
  "ratio_for_ms a current_ms =
     (case get_window_index_for_ms a current_ms of
        Inl e \<Rightarrow> Inl e
      | Inr idx \<Rightarrow>
          (case np_get (energy a) idx of
             Inl e \<Rightarrow> Inl e
           | Inr en \<Rightarrow>
               (case np_get (baseline a) idx of
                  Inl e \<Rightarrow> Inl e
                | Inr bl \<Rightarrow> if bl = 0 then Inl ZeroDivisionError else Inr (en / bl))))"



section \<open>The player (\<^verbatim>\<open>player.py\<close>)\<close>

text \<open>
  \<^verbatim>\<open>class Player\<close>, with the fields that the spawn logic reads and writes and the
  target lane of the key handlers; \<^verbatim>\<open>Player()\<close> starts in lane \<^verbatim>\<open>LANES // 2\<close>.
\<close>

record player_state =
  lane :: int
  target_lane :: int
  last_lane_change_ms :: int

definition Player :: player_state where
  "Player = \<lparr>lane = LANES div 2, target_lane = LANES div 2, last_lane_change_ms = 0\<rparr>"

text \<open>\<^verbatim>\<open>move_up\<close> and \<^verbatim>\<open>move_down\<close>.\<close>

definition move_up :: "player_state \<Rightarrow> player_state" where
  "move_up p = p\<lparr>target_lane := clamp (target_lane p - 1) 0 (LANES - 1)\<rparr>"

definition move_down :: "player_state \<Rightarrow> player_state" where
  "move_down p = p\<lparr>target_lane := clamp (target_lane p + 1) 0 (LANES - 1)\<rparr>"

section \<open>The spawn logic (\<^verbatim>\<open>game.py\<close>)\<close>

text \<open>
  The part of \<^verbatim>\<open>class Game\<close> that \<^verbatim>\<open>spawn_logic\<close> works on, as \<^verbatim>\<open>Game.__init__\<close>
  leaves it.  The analyzer is never assigned to after construction and is passed to
  \<^verbatim>\<open>spawn_logic\<close> as an argument.
\<close>

record game =
  last_obstacle_near_ms :: int
  recent_high_count :: int
  player :: player_state
  ob_manager :: obstacle_manager

definition Game_init :: game where
  "Game_init = \<lparr>last_obstacle_near_ms = 0, recent_high_count = 0, player = Player,
                 ob_manager = ObstacleManager\<rparr>"

text \<open>
  The random source.  One call of \<^verbatim>\<open>spawn_logic\<close> draws at most one
  \<^verbatim>\<open>np.random.rand()\<close>, one \<^verbatim>\<open>np.random.choice\<close> and up to eight
  \<^verbatim>\<open>np.random.randint\<close>; the draws are inputs of the model.  \<^verbatim>\<open>choice(xs)\<close> is the
  element at the drawn position modulo \<^verbatim>\<open>len(xs)\<close>, and the \<open>k\<close>-th
  \<^verbatim>\<open>randint(0, n)\<close> is the \<open>k\<close>-th draw modulo \<open>n\<close>, so that every value the library can
  return, and no other, is obtained from some draw.  The lists are the three size
  tables, which are not empty, and \<open>n\<close> is \<^verbatim>\<open>LANES - lane_count + 1\<close> for a lane count
  of a size table, which is at least 5 (lemma \<open>candidate_lanes_in_range\<close>); the
  library's errors on an empty list and on \<open>n \<le> 0\<close> do not arise.
\<close>

record rng =
  rand_roll :: real
  choice_pick :: nat
  randint_draw :: "nat \<Rightarrow> nat"

definition choice :: "rng \<Rightarrow> int list \<Rightarrow> int" where
  "choice r xs = xs ! (choice_pick r mod length xs)"

definition randint :: "rng \<Rightarrow> nat \<Rightarrow> int \<Rightarrow> int" where
  "randint r k n = int (randint_draw r k mod nat n)"

datatype tier = Low | Medium | High

text \<open>
  Lines 65-94, the streak smoothing: from the ratio, the quiet-region roll and
  \<^verbatim>\<open>recent_high_count\<close> to the tier and the new counter.  \<open>None\<close> is the \<^verbatim>\<open>return\<close>
  of the quiet region, which leaves \<^verbatim>\<open>spawn_logic\<close> before the counter is assigned.
\<close>

definition streak_tier :: "real \<Rightarrow> real \<Rightarrow> int \<Rightarrow> (tier \<times> int) option" where
  "streak_tier ratio roll rhc =
     (if ratio \<ge> HIGH_TH then
        Some (if rhc = 0 then High else if rhc = 1 then Medium else Low, min (rhc + 1) 4)
      else if ratio \<ge> MEDIUM_TH then Some (Medium, 0)
      else if ratio \<ge> LOW_TH then Some (Low, 0)
      else if roll < 0.05 then Some (Low, 0)
      else None)"

text \<open>Lines 97-98, the heavy cooldown.\<close>

definition cooldown_tier :: "tier \<Rightarrow> int \<Rightarrow> int \<Rightarrow> tier" where
  "cooldown_tier t current_ms heavy_ms =
     (if t = High \<and> current_ms - heavy_ms < HEAVY_COOLDOWN_MS then Medium else t)"

text \<open>Lines 101-106, the lane count of the tier.\<close>

definition choose_lane_count :: "rng \<Rightarrow> tier \<Rightarrow> int" where
  "choose_lane_count r t =
     (case t of
        Low \<Rightarrow> choice r LOW_SIZES
      | Medium \<Rightarrow> choice r MEDIUM_SIZES
      | High \<Rightarrow> choice r HIGH_SIZES)"

text \<open>
  Lines 113-119: the arrival time of a new obstacle at the player and the test that an
  existing obstacle arrives within 0.6 seconds of it.
\<close>

definition t_new :: real where
  "t_new = real_of_int (spawn_x - PLAYER_X) / real_of_int OBSTACLE_SPEED"

definition in_slice :: "obstacle \<Rightarrow> bool" where
  "in_slice ob \<longleftrightarrow>
     \<bar>(ob_x ob - real_of_int PLAYER_X) / real_of_int OBSTACLE_SPEED - t_new\<bar> < 0.6"

text \<open>
  Lines 117-122: the lanes of one existing obstacle are marked when it is in the slice;
  lanes outside \<^verbatim>\<open>0 <= l < LANES\<close> are skipped.
\<close>

definition mark_obstacle :: "obstacle \<Rightarrow> int list \<Rightarrow> int list" where
  "mark_obstacle ob blocks =
     (if in_slice ob then
        fold (\<lambda>l b. if 0 \<le> l \<and> l < LANES then b[nat l := 1] else b)
          [lane_start ob .. lane_start ob + lane_count ob - 1] blocks
      else blocks)"

text \<open>
  Lines 111-125: the occupancy array of one trial.  The candidate's lanes are written
  without a range test; \<^verbatim>\<open>start\<close> comes from \<^verbatim>\<open>randint(0, LANES - lane_count + 1)\<close> and
  \<^verbatim>\<open>lane_count\<close> from a size table, so \<open>0 \<le> start\<close> and \<open>start + lane_count \<le> LANES\<close>
  (lemma \<open>candidate_lanes_in_range\<close>) and every write is to a lane of the array.
\<close>

definition trial_blocks :: "obstacle list \<Rightarrow> int \<Rightarrow> int \<Rightarrow> int list" where
  "trial_blocks obs start lc =
     fold (\<lambda>l b. b[nat l := 1]) [start .. start + lc - 1]
       (fold mark_obstacle obs (replicate (nat LANES) 0))"

text \<open>
  Lines 108-130: the loop \<^verbatim>\<open>for _ in range(8)\<close>.  \<open>k\<close> counts the trials made, \<open>n\<close> the
  trials left; the result is \<^verbatim>\<open>lane_start\<close> when \<^verbatim>\<open>placed\<close>, and \<open>None\<close> otherwise.
\<close>

fun place_trials :: "rng \<Rightarrow> obstacle list \<Rightarrow> int \<Rightarrow> nat \<Rightarrow> nat \<Rightarrow> int option" where
  "place_trials r obs lc k 0 = None"
| "place_trials r obs lc k (Suc n) =
     (let start = randint r k (LANES - lc + 1);
          blocks = trial_blocks obs start lc
      in if 0 \<in> set blocks then Some start
         else place_trials r obs lc (Suc k) n)"

definition place_search :: "rng \<Rightarrow> obstacle list \<Rightarrow> int \<Rightarrow> int option" where
  "place_search r obs lc = place_trials r obs lc 0 8"

text \<open>
  Lines 62-133, the audio-driven part.  \<open>None\<close> is the early \<^verbatim>\<open>return\<close>, which also
  skips the boredom part below.
\<close>

definition energy_phase :: "rng \<Rightarrow> real \<Rightarrow> int \<Rightarrow> game \<Rightarrow> game option" where
  "energy_phase r ratio current_ms g =
     (let time_since_last = current_ms - last_spawn_ms (ob_manager g)
      in if time_since_last \<ge> MIN_SPAWN_INTERVAL_MS then
           (case streak_tier ratio (rand_roll r) (recent_high_count g) of
              None \<Rightarrow> None
            | Some (t0, rhc) \<Rightarrow>
                (let g1 = g\<lparr>recent_high_count := rhc\<rparr>;
                     t = cooldown_tier t0 current_ms (last_heavy_ms (ob_manager g1));
                     lc = choose_lane_count r t
                 in case place_search r (obstacles (ob_manager g1)) lc of
                      None \<Rightarrow> Some g1
                    | Some ls \<Rightarrow>
                        Some (g1\<lparr>ob_manager := spawn ls lc current_ms (ob_manager g1)\<rparr>)))
         else Some g)"

text \<open>Lines 136-155, the boredom spawn.\<close>

definition boredom_due :: "int \<Rightarrow> game \<Rightarrow> bool" where
  "boredom_due current_ms g \<longleftrightarrow>
     (let inactive_time = current_ms - last_lane_change_ms (player g);
          quiet_time = current_ms - last_obstacle_near_ms g
      in inactive_time > 500 \<and> quiet_time > 400)"

definition conflicting :: "obstacle \<Rightarrow> bool" where
  "conflicting ob \<longleftrightarrow>
     ob_x ob > real_of_int PLAYER_X \<and>
     \<bar>(ob_x ob - real_of_int spawn_x) / real_of_int OBSTACLE_SPEED\<bar> < 0.4"

definition shift_amount :: int where
  "shift_amount = py_int (real_of_int OBSTACLE_SPEED * 0.6)"

definition boredom_phase :: "int \<Rightarrow> game \<Rightarrow> game" where
  "boredom_phase current_ms g =
     (if boredom_due current_ms g then
        (let m = ob_manager g;
             shifted = map (\<lambda>ob. if conflicting ob
                                  then ob\<lparr>ob_x := ob_x ob + real_of_int shift_amount\<rparr>
                                  else ob) (obstacles m);
             tiny = Obstacle (lane (player g)) 1 (real_of_int spawn_x)
         in g\<lparr>ob_manager := m\<lparr>obstacles := shifted @ [tiny], last_spawn_ms := current_ms\<rparr>,
              player := (player g)\<lparr>last_lane_change_ms := current_ms\<rparr>\<rparr>)
      else g)"

text \<open>\<^verbatim>\<open>spawn_logic\<close> from the ratio on, and the whole of it.\<close>

definition spawn_logic_ratio :: "rng \<Rightarrow> real \<Rightarrow> int \<Rightarrow> game \<Rightarrow> game" where
  "spawn_logic_ratio r ratio current_ms g =
     (case energy_phase r ratio current_ms g of
        None \<Rightarrow> g
      | Some g1 \<Rightarrow> boredom_phase current_ms g1)"

definition spawn_logic :: "analyzer \<Rightarrow> rng \<Rightarrow> int \<Rightarrow> game \<Rightarrow> error + game" where
  "spawn_logic a r current_ms g =
     (case ratio_for_ms a current_ms of
        Inl e \<Rightarrow> Inl e
      | Inr ratio \<Rightarrow> Inr (spawn_logic_ratio r ratio current_ms g))"

section \<open>Runs of the spawn logic\<close>

text \<open>
  Which of the two spawns one call of \<^verbatim>\<open>spawn_logic\<close> performs: the audio-driven part
  spawns when it appends an obstacle, the boredom part when it is reached and its
  condition holds.  Each spawn is logged with the time of the call.
\<close>

datatype spawn_kind = EnergySpawn | BoredomSpawn

definition energy_spawned :: "rng \<Rightarrow> real \<Rightarrow> int \<Rightarrow> game \<Rightarrow> bool" where
  "energy_spawned r ratio current_ms g \<longleftrightarrow>
     (case energy_phase r ratio current_ms g of
        None \<Rightarrow> False
      | Some g1 \<Rightarrow> length (obstacles (ob_manager g1)) > length (obstacles (ob_manager g)))"

definition boredom_spawned :: "rng \<Rightarrow> real \<Rightarrow> int \<Rightarrow> game \<Rightarrow> bool" where
  "boredom_spawned r ratio current_ms g \<longleftrightarrow>
     (case energy_phase r ratio current_ms g of
        None \<Rightarrow> False
      | Some g1 \<Rightarrow> boredom_due current_ms g1)"

definition spawn_events :: "rng \<Rightarrow> real \<Rightarrow> int \<Rightarrow> game \<Rightarrow> (int \<times> spawn_kind) list" where
  "spawn_events r ratio current_ms g =
     (if energy_spawned r ratio current_ms g then [(current_ms, EnergySpawn)] else []) @
     (if boredom_spawned r ratio current_ms g then [(current_ms, BoredomSpawn)] else [])"

text \<open>
  A run of the game under a signal of constant ratio.  \<open>Tick r ms\<close> is a call
  \<^verbatim>\<open>spawn_logic(ms)\<close> with the random draws \<open>r\<close>.  \<open>Elsewhere f\<close> stands for the rest of the
  loop body of \<^verbatim>\<open>Game.run\<close> (the key handlers, \<^verbatim>\<open>player.update\<close>, \<^verbatim>\<open>ob_manager.update\<close>,
  the near-obstacle bookkeeping, \<^verbatim>\<open>mark_passed_and_count\<close>): it may change the game in
  any way \<open>f\<close>, except that \<^verbatim>\<open>last_spawn_ms\<close> stays, since only \<^verbatim>\<open>spawn\<close> and
  \<^verbatim>\<open>spawn_logic\<close> assign it.
\<close>

datatype step = Tick rng int | Elsewhere "game \<Rightarrow> game"

fun play :: "real \<Rightarrow> step list \<Rightarrow> game \<times> (int \<times> spawn_kind) list
               \<Rightarrow> game \<times> (int \<times> spawn_kind) list" where
  "play ratio [] st = st"
| "play ratio (Tick r ms # steps) (g, evs) =
     play ratio steps (spawn_logic_ratio r ratio ms g, evs @ spawn_events r ratio ms g)"
| "play ratio (Elsewhere f # steps) (g, evs) =
     play ratio steps
       ((f g)\<lparr>ob_manager := (ob_manager (f g))\<lparr>last_spawn_ms := last_spawn_ms (ob_manager g)\<rparr>\<rparr>,
        evs)"

text \<open>The loop step that moves the obstacles by \<^verbatim>\<open>ob_manager.update(dt, current_ms)\<close>.\<close>

definition advance :: "real \<Rightarrow> int \<Rightarrow> game \<Rightarrow> game" where
  "advance dt current_ms g = g\<lparr>ob_manager := manager_update dt current_ms (ob_manager g)\<rparr>"

section \<open>Example inputs\<close>

text \<open>
  Random draws used in the examples: the quiet-region roll is 0.5, \<^verbatim>\<open>choice\<close> takes the
  first element, the first \<^verbatim>\<open>randint\<close> draw is 6 and the later ones are 2.
\<close>

definition example_rng :: rng where
  "example_rng =
     \<lparr>rand_roll = 1 / 2, choice_pick = 0, randint_draw = (\<lambda>k. if k = 0 then 6 else 2)\<rparr>"

text \<open>A fresh game with one obstacle over lanes 0 to 5 at the spawn edge.\<close>

definition crowded_game :: game where
  "crowded_game =
     Game_init\<lparr>ob_manager := ObstacleManager\<lparr>obstacles := [Obstacle 0 6 1700]\<rparr>\<rparr>"

text \<open>
  A short stereo clip at 20 frames per second, and a mono clip of 4406 samples at the
  44056 Hz rate of NTSC-era PCM adaptors, a rate that is not a multiple of 10.
\<close>

definition example_audio :: audio_segment where
  "example_audio = \<lparr>frame_rate = 20, channels = 2, array_of_samples = [2, 4, - 6, - 2, 1, 1]\<rparr>"


section \<open>Facts about the model\<close>


subsection \<open>Passed obstacles\<close>







subsection \<open>The occupancy array of a placement trial\<close>

lemma fold_mark_guarded_length:
  "length (fold (\<lambda>l b. if 0 \<le> l \<and> l < LANES then b[nat l := 1] else b) ls (b0::int list)) = length b0"
  by (induction ls arbitrary: b0) simp_all

lemma fold_mark_guarded_nth:
  "n < length b0 \<Longrightarrow> int n < LANES \<Longrightarrow>
   fold (\<lambda>l b. if 0 \<le> l \<and> l < LANES then b[nat l := 1] else b) ls (b0::int list) ! n =
     (if int n \<in> set ls then 1 else b0 ! n)"
proof (induction ls arbitrary: b0)
  case Nil
  then show ?case by simp
next
  case (Cons l ls)
  then show ?case
    by (auto simp: nth_list_update)
qed

lemma fold_mark_length:
  "length (fold (\<lambda>l b. b[nat l := 1]) ls (b0::int list)) = length b0"
  by (induction ls arbitrary: b0) simp_all

lemma fold_mark_nth:
  "n < length b0 \<Longrightarrow> \<forall>l\<in>set ls. 0 \<le> l \<Longrightarrow>
   fold (\<lambda>l b. b[nat l := 1]) ls (b0::int list) ! n =
     (if int n \<in> set ls then 1 else b0 ! n)"
proof (induction ls arbitrary: b0)
  case Nil
  then show ?case by simp
next
  case (Cons l ls)
  then show ?case
    by (auto simp: nth_list_update)
qed

lemma mark_obstacle_length: "length (mark_obstacle ob b) = length b"
  by (simp add: mark_obstacle_def fold_mark_guarded_length)

lemma mark_obstacle_nth:
  "n < length b \<Longrightarrow> int n < LANES \<Longrightarrow>
   mark_obstacle ob b ! n =
     (if in_slice ob \<and> lane_start ob \<le> int n \<and> int n < lane_start ob + lane_count ob
      then 1 else b ! n)"
  by (auto simp: mark_obstacle_def fold_mark_guarded_nth)

lemma fold_mark_obstacle_length: "length (fold mark_obstacle obs b) = length b"
  by (induction obs arbitrary: b) (simp_all add: mark_obstacle_length)

lemma fold_mark_obstacle_nth:
  "n < length b \<Longrightarrow> int n < LANES \<Longrightarrow>
   fold mark_obstacle obs b ! n =
     (if \<exists>ob\<in>set obs. in_slice ob \<and> lane_start ob \<le> int n \<and> int n < lane_start ob + lane_count ob
      then 1 else b ! n)"
proof (induction obs arbitrary: b)
  case Nil
  then show ?case by simp
next
  case (Cons ob obs)
  then show ?case
    by (auto simp: mark_obstacle_length mark_obstacle_nth)
qed

lemma trial_blocks_length: "length (trial_blocks obs start lc) = nat LANES"
  by (simp add: trial_blocks_def fold_mark_length fold_mark_obstacle_length)

lemma trial_blocks_nth:
  assumes "0 \<le> start" "0 \<le> l" "l < LANES"
  shows "trial_blocks obs start lc ! nat l =
     (if (start \<le> l \<and> l < start + lc) \<or>
         (\<exists>ob\<in>set obs. in_slice ob \<and> lane_start ob \<le> l \<and> l < lane_start ob + lane_count ob)
      then 1 else 0)"
proof -
  have n: "nat l < nat LANES" "int (nat l) = l" using assms by auto
  have "\<forall>j\<in>set [start .. start + lc - 1]. 0 \<le> j" using assms by auto
  then show ?thesis
    unfolding trial_blocks_def using n assms
    by (auto simp: fold_mark_nth fold_mark_obstacle_length fold_mark_obstacle_nth)
qed

lemma place_trials_Some:
  "place_trials r obs lc k n = Some ls \<Longrightarrow>
   \<exists>j. k \<le> j \<and> j < k + n \<and> ls = randint r j (LANES - lc + 1) \<and>
       0 \<in> set (trial_blocks obs ls lc) \<and>
       (\<forall>i. k \<le> i \<and> i < j \<longrightarrow> 0 \<notin> set (trial_blocks obs (randint r i (LANES - lc + 1)) lc))"
proof (induction n arbitrary: k)
  case 0
  then show ?case by simp
next
  case (Suc n)
  show ?case
  proof (cases "0 \<in> set (trial_blocks obs (randint r k (LANES - lc + 1)) lc)")
    case True
    with Suc.prems have "ls = randint r k (LANES - lc + 1)" by (simp add: Let_def)
    with True show ?thesis by (intro exI[of _ k]) auto
  next
    case False
    with Suc.prems have "place_trials r obs lc (Suc k) n = Some ls" by (simp add: Let_def)
    from Suc.IH[OF this] obtain j where j: "Suc k \<le> j" "j < Suc k + n"
      "ls = randint r j (LANES - lc + 1)" "0 \<in> set (trial_blocks obs ls lc)"
      "\<forall>i. Suc k \<le> i \<and> i < j \<longrightarrow> 0 \<notin> set (trial_blocks obs (randint r i (LANES - lc + 1)) lc)"
      by blast
    have "\<forall>i. k \<le> i \<and> i < j \<longrightarrow> 0 \<notin> set (trial_blocks obs (randint r i (LANES - lc + 1)) lc)"
    proof (intro allI impI)
      fix i assume "k \<le> i \<and> i < j"
      then show "0 \<notin> set (trial_blocks obs (randint r i (LANES - lc + 1)) lc)"
        using False j(5) by (cases "i = k") auto
    qed
    with j show ?thesis by (intro exI[of _ j]) auto
  qed
qed

lemma place_trials_None:
  "place_trials r obs lc k n = None \<longleftrightarrow>
   (\<forall>j. k \<le> j \<and> j < k + n \<longrightarrow> 0 \<notin> set (trial_blocks obs (randint r j (LANES - lc + 1)) lc))"
proof (induction n arbitrary: k)
  case 0
  then show ?case by auto
next
  case (Suc n)
  show ?case
  proof (cases "0 \<in> set (trial_blocks obs (randint r k (LANES - lc + 1)) lc)")
    case True
    then have "place_trials r obs lc k (Suc n) \<noteq> None" by (simp add: Let_def)
    moreover have "k \<le> k \<and> k < k + Suc n" by simp
    ultimately show ?thesis using True by blast
  next
    case False
    have "(\<forall>j. Suc k \<le> j \<and> j < Suc k + n \<longrightarrow> 0 \<notin> set (trial_blocks obs (randint r j (LANES - lc + 1)) lc))
       \<longleftrightarrow> (\<forall>j. k \<le> j \<and> j < k + Suc n \<longrightarrow> 0 \<notin> set (trial_blocks obs (randint r j (LANES - lc + 1)) lc))"
      (is "?A \<longleftrightarrow> ?B")
    proof
      assume a: ?A
      show ?B
      proof (intro allI impI)
        fix j assume "k \<le> j \<and> j < k + Suc n"
        then show "0 \<notin> set (trial_blocks obs (randint r j (LANES - lc + 1)) lc)"
          using a False by (cases "j = k") auto
      qed
    next
      assume ?B then show ?A by auto
    qed
    with False Suc.IH[of "Suc k"] show ?thesis by (simp add: Let_def)
  qed
qed

lemma free_lane_of_zero:
  assumes "0 \<in> set (trial_blocks obs ls lc)"
  shows "\<exists>l. 0 \<le> l \<and> l < LANES \<and> trial_blocks obs ls lc ! nat l = 0"
proof -
  from assms obtain n where n: "n < length (trial_blocks obs ls lc)" "trial_blocks obs ls lc ! n = 0"
    by (auto simp: in_set_conv_nth)
  then have "int n < LANES" by (simp add: trial_blocks_length)
  with n show ?thesis by (intro exI[of _ "int n"]) simp
qed

lemma randint_nonneg: "0 \<le> randint r k n"
  by (simp add: randint_def)


lemma energy_phase_obstacles:
  assumes "energy_phase r ratio ms g = Some g'"
  shows "obstacles (ob_manager g') = obstacles (ob_manager g) \<or>
         (\<exists>ls lc. place_search r (obstacles (ob_manager g)) lc = Some ls \<and>
            obstacles (ob_manager g') =
              obstacles (ob_manager g) @ [Obstacle ls lc (real_of_int spawn_x)])"
proof (cases "ms - last_spawn_ms (ob_manager g) \<ge> MIN_SPAWN_INTERVAL_MS")
  case False
  with assms show ?thesis by (simp add: energy_phase_def Let_def)
next
  case gate: True
  show ?thesis
  proof (cases "streak_tier ratio (rand_roll r) (recent_high_count g)")
    case None
    with assms gate show ?thesis by (simp add: energy_phase_def Let_def)
  next
    case (Some p)
    obtain t0 rhc where p: "p = (t0, rhc)" by (cases p)
    define lc where "lc = choose_lane_count r (cooldown_tier t0 ms (last_heavy_ms (ob_manager g)))"
    show ?thesis
    proof (cases "place_search r (obstacles (ob_manager g)) lc")
      case None
      with assms gate Some p show ?thesis
        by (auto simp: energy_phase_def Let_def lc_def)
    next
      case (Some ls)
      with assms gate \<open>streak_tier ratio (rand_roll r) (recent_high_count g) = Some p\<close> p
      have "obstacles (ob_manager g') =
              obstacles (ob_manager g) @ [Obstacle ls lc (real_of_int spawn_x)]"
        by (auto simp: energy_phase_def Let_def lc_def spawn_def)
      with Some show ?thesis by blast
    qed
  qed
qed

subsection \<open>The audio-driven part and the streak counter\<close>

lemma energy_phase_cases:
  assumes "energy_phase r ratio ms g = Some g1"
  shows "(ms - last_spawn_ms (ob_manager g) < MIN_SPAWN_INTERVAL_MS \<and> g1 = g) \<or>
         (\<exists>t0 rhc. MIN_SPAWN_INTERVAL_MS \<le> ms - last_spawn_ms (ob_manager g) \<and>
            streak_tier ratio (rand_roll r) (recent_high_count g) = Some (t0, rhc) \<and>
            ((place_search r (obstacles (ob_manager g))
                (choose_lane_count r (cooldown_tier t0 ms (last_heavy_ms (ob_manager g)))) = None \<and>
              g1 = g\<lparr>recent_high_count := rhc\<rparr>) \<or>
             (\<exists>ls. place_search r (obstacles (ob_manager g))
                (choose_lane_count r (cooldown_tier t0 ms (last_heavy_ms (ob_manager g)))) = Some ls \<and>
              g1 = g\<lparr>recent_high_count := rhc,
                     ob_manager := spawn ls
                       (choose_lane_count r (cooldown_tier t0 ms (last_heavy_ms (ob_manager g))))
                       ms (ob_manager g)\<rparr>)))"
proof (cases "ms - last_spawn_ms (ob_manager g) \<ge> MIN_SPAWN_INTERVAL_MS")
  case False
  with assms show ?thesis by (simp add: energy_phase_def Let_def)
next
  case gate: True
  show ?thesis
  proof (cases "streak_tier ratio (rand_roll r) (recent_high_count g)")
    case None
    with assms gate show ?thesis by (simp add: energy_phase_def Let_def)
  next
    case (Some p)
    obtain t0 rhc where p: "p = (t0, rhc)" by (cases p)
    define lc where "lc = choose_lane_count r (cooldown_tier t0 ms (last_heavy_ms (ob_manager g)))"
    show ?thesis
    proof (cases "place_search r (obstacles (ob_manager g)) lc")
      case None
      with assms gate Some p have "g1 = g\<lparr>recent_high_count := rhc\<rparr>"
        by (auto simp: energy_phase_def Let_def lc_def)
      with None gate Some p show ?thesis unfolding lc_def by blast
    next
      case (Some ls)
      with assms gate \<open>streak_tier ratio (rand_roll r) (recent_high_count g) = Some p\<close> p
      have "g1 = g\<lparr>recent_high_count := rhc, ob_manager := spawn ls lc ms (ob_manager g)\<rparr>"
        by (auto simp: energy_phase_def Let_def lc_def)
      with Some gate \<open>streak_tier ratio (rand_roll r) (recent_high_count g) = Some p\<close> p
      show ?thesis unfolding lc_def by blast
    qed
  qed
qed

lemma energy_phase_None:
  "energy_phase r ratio ms g = None \<longleftrightarrow>
     MIN_SPAWN_INTERVAL_MS \<le> ms - last_spawn_ms (ob_manager g) \<and>
     streak_tier ratio (rand_roll r) (recent_high_count g) = None"
  by (auto simp: energy_phase_def Let_def split: option.splits)

lemma streak_tier_bound:
  "streak_tier ratio roll rhc = Some (t, rhc') \<Longrightarrow> rhc \<le> 4 \<Longrightarrow> rhc' \<le> 4"
  by (auto simp: streak_tier_def split: if_splits)

lemma streak_tier_reset:
  "ratio < HIGH_TH \<Longrightarrow> streak_tier ratio roll rhc = Some (t, rhc') \<Longrightarrow> rhc' = 0"
  by (auto simp: streak_tier_def split: if_splits)

lemma streak_tier_high:
  "HIGH_TH \<le> ratio \<Longrightarrow>
   streak_tier ratio roll rhc =
     Some (if rhc = 0 then High else if rhc = 1 then Medium else Low, min (rhc + 1) 4)"
  by (simp add: streak_tier_def)

lemma streak_tier_classified:
  "ratio < HIGH_TH \<Longrightarrow> LOW_TH \<le> ratio \<or> roll < 0.05 \<Longrightarrow>
   \<exists>t. streak_tier ratio roll rhc = Some (t, 0)"
  by (auto simp: streak_tier_def)

lemma boredom_phase_rhc: "recent_high_count (boredom_phase ms g) = recent_high_count g"
  by (simp add: boredom_phase_def Let_def)

lemma spawn_logic_ratio_rhc:
  "recent_high_count (spawn_logic_ratio r ratio ms g) =
     (if MIN_SPAWN_INTERVAL_MS \<le> ms - last_spawn_ms (ob_manager g) then
        (case streak_tier ratio (rand_roll r) (recent_high_count g) of
           None \<Rightarrow> recent_high_count g
         | Some (t, rhc) \<Rightarrow> rhc)
      else recent_high_count g)"
proof (cases "energy_phase r ratio ms g")
  case None
  moreover from None have "MIN_SPAWN_INTERVAL_MS \<le> ms - last_spawn_ms (ob_manager g) \<and>
     streak_tier ratio (rand_roll r) (recent_high_count g) = None"
    by (simp add: energy_phase_None)
  ultimately show ?thesis by (simp add: spawn_logic_ratio_def)
next
  case (Some g1)
  from energy_phase_cases[OF Some] show ?thesis
    by (auto simp: spawn_logic_ratio_def Some boredom_phase_rhc)
qed

subsection \<open>Lane counts and the heavy cooldown\<close>

lemma choice_in_set: "xs \<noteq> [] \<Longrightarrow> choice r xs \<in> set xs"
  by (simp add: choice_def)

lemma choose_lane_count_cases:
  "(t = Low \<longrightarrow> choose_lane_count r t \<in> {1, 2}) \<and>
   (t = Medium \<longrightarrow> choose_lane_count r t \<in> {2, 3}) \<and>
   (t = High \<longrightarrow> choose_lane_count r t \<in> {4, 5, 6})"
proof -
  have "choice r LOW_SIZES \<in> set LOW_SIZES" "choice r MEDIUM_SIZES \<in> set MEDIUM_SIZES"
    "choice r HIGH_SIZES \<in> set HIGH_SIZES"
    using choice_in_set[of LOW_SIZES r] choice_in_set[of MEDIUM_SIZES r]
      choice_in_set[of HIGH_SIZES r]
    by (simp_all add: LOW_SIZES_def MEDIUM_SIZES_def HIGH_SIZES_def)
  then show ?thesis
    by (cases t) (auto simp: choose_lane_count_def LOW_SIZES_def MEDIUM_SIZES_def HIGH_SIZES_def)
qed

lemma choose_lane_count_small: "t \<noteq> High \<Longrightarrow> choose_lane_count r t < 4"
  using choose_lane_count_cases[of t r] by (cases t) auto

lemma choose_lane_count_range: "1 \<le> choose_lane_count r t \<and> choose_lane_count r t \<le> 6"
  using choose_lane_count_cases[of t r] by (cases t) auto

lemma cooldown_tier_not_High:
  "ms - heavy < HEAVY_COOLDOWN_MS \<Longrightarrow> cooldown_tier t ms heavy \<noteq> High"
  by (simp add: cooldown_tier_def)

lemma candidate_lanes_in_range:
  "0 \<le> randint r k (LANES - choose_lane_count r t + 1) \<and>
   randint r k (LANES - choose_lane_count r t + 1) + choose_lane_count r t \<le> LANES"
proof -
  have "1 \<le> choose_lane_count r t \<and> choose_lane_count r t \<le> 6" by (rule choose_lane_count_range)
  then have "0 < nat (LANES - choose_lane_count r t + 1)" by (simp add: LANES_def)
  then have "randint_draw r k mod nat (LANES - choose_lane_count r t + 1)
               < nat (LANES - choose_lane_count r t + 1)" by simp
  then show ?thesis by (auto simp: randint_def)
qed

lemma spawn_fields:
  "obstacles (spawn ls lc ms m) = obstacles m @ [Obstacle ls lc (real_of_int spawn_x)]"
  "last_spawn_ms (spawn ls lc ms m) = ms"
  "last_heavy_ms (spawn ls lc ms m) = (if lc \<ge> 4 then ms else last_heavy_ms m)"
  by (simp_all add: spawn_def Let_def)

lemma energy_phase_cooldown:
  assumes "energy_phase r ratio ms g = Some g1"
    and "ms - last_heavy_ms (ob_manager g) < HEAVY_COOLDOWN_MS"
  shows "last_heavy_ms (ob_manager g1) = last_heavy_ms (ob_manager g) \<and>
         last_obstacle_near_ms g1 = last_obstacle_near_ms g \<and> player g1 = player g \<and>
         (obstacles (ob_manager g1) = obstacles (ob_manager g) \<or>
          (\<exists>ls lc. lc < 4 \<and>
             obstacles (ob_manager g1) =
               obstacles (ob_manager g) @ [Obstacle ls lc (real_of_int spawn_x)]))"
proof -
  have small: "choose_lane_count r (cooldown_tier t0 ms (last_heavy_ms (ob_manager g))) < 4" for t0
    using assms(2) by (intro choose_lane_count_small cooldown_tier_not_High)
  from energy_phase_cases[OF assms(1)] show ?thesis
  proof (elim disjE exE conjE)
    assume "g1 = g" then show ?thesis by simp
  next
    fix t0 rhc assume "g1 = g\<lparr>recent_high_count := rhc\<rparr>"
    then show ?thesis by simp
  next
    fix t0 rhc ls
    assume g1: "g1 = g\<lparr>recent_high_count := rhc,
                     ob_manager := spawn ls
                       (choose_lane_count r (cooldown_tier t0 ms (last_heavy_ms (ob_manager g))))
                       ms (ob_manager g)\<rparr>"
    with small[of t0] show ?thesis by (auto simp: spawn_fields)
  qed
qed

lemma boredom_phase_obstacles:
  "last_heavy_ms (ob_manager (boredom_phase ms g)) = last_heavy_ms (ob_manager g) \<and>
   (obstacles (ob_manager (boredom_phase ms g)) = obstacles (ob_manager g) \<or>
    (\<exists>shifted. length shifted = length (obstacles (ob_manager g)) \<and>
        map lane_count shifted = map lane_count (obstacles (ob_manager g)) \<and>
        obstacles (ob_manager (boredom_phase ms g)) =
          shifted @ [Obstacle (lane (player g)) 1 (real_of_int spawn_x)]))"
proof (cases "boredom_due ms g")
  case False
  then show ?thesis by (simp add: boredom_phase_def)
next
  case True
  define shifted where "shifted = map (\<lambda>ob. if conflicting ob
                                  then ob\<lparr>ob_x := ob_x ob + real_of_int shift_amount\<rparr>
                                  else ob) (obstacles (ob_manager g))"
  have "length shifted = length (obstacles (ob_manager g))" by (simp add: shifted_def)
  moreover have "map lane_count shifted = map lane_count (obstacles (ob_manager g))"
    by (simp add: shifted_def o_def cong: map_cong)
  moreover have "obstacles (ob_manager (boredom_phase ms g)) =
          shifted @ [Obstacle (lane (player g)) 1 (real_of_int spawn_x)]"
    using True by (simp add: boredom_phase_def Let_def shifted_def)
  moreover have "last_heavy_ms (ob_manager (boredom_phase ms g)) = last_heavy_ms (ob_manager g)"
    using True by (simp add: boredom_phase_def Let_def)
  ultimately show ?thesis by blast
qed

subsection \<open>Spawn times in a run\<close>

lemma energy_spawned_gate:
  assumes "energy_spawned r ratio ms g"
  shows "MIN_SPAWN_INTERVAL_MS \<le> ms - last_spawn_ms (ob_manager g)"
proof (rule ccontr)
  assume "\<not> MIN_SPAWN_INTERVAL_MS \<le> ms - last_spawn_ms (ob_manager g)"
  then have "energy_phase r ratio ms g = Some g" by (simp add: energy_phase_def Let_def)
  with assms show False by (simp add: energy_spawned_def)
qed

lemma boredom_phase_last_spawn:
  "last_spawn_ms (ob_manager (boredom_phase ms g)) =
     (if boredom_due ms g then ms else last_spawn_ms (ob_manager g))"
  by (simp add: boredom_phase_def Let_def)

lemma energy_phase_last_spawn:
  assumes "energy_phase r ratio ms g = Some g1"
  shows "last_spawn_ms (ob_manager g1) =
           (if energy_spawned r ratio ms g then ms else last_spawn_ms (ob_manager g))"
  using energy_phase_cases[OF assms] assms
  by (auto simp: energy_spawned_def spawn_fields)

lemma spawn_logic_ratio_last_spawn:
  "last_spawn_ms (ob_manager (spawn_logic_ratio r ratio ms g)) =
     (if spawn_events r ratio ms g = [] then last_spawn_ms (ob_manager g) else ms)"
proof (cases "energy_phase r ratio ms g")
  case None
  then show ?thesis
    by (simp add: spawn_logic_ratio_def spawn_events_def energy_spawned_def boredom_spawned_def)
next
  case (Some g1)
  from energy_phase_last_spawn[OF Some] Some show ?thesis
    by (simp add: spawn_logic_ratio_def spawn_events_def boredom_spawned_def
        boredom_phase_last_spawn)
qed

lemma spaced_snoc:
  assumes "\<forall>i. Suc i < length evs \<longrightarrow> snd (evs ! Suc i) = EnergySpawn \<longrightarrow>
             M \<le> fst (evs ! Suc i) - fst (evs ! i)"
    and "evs \<noteq> [] \<longrightarrow> snd e = EnergySpawn \<longrightarrow> M \<le> fst e - fst (last evs)"
  shows "\<forall>i. Suc i < length (evs @ [e]) \<longrightarrow> snd ((evs @ [e]) ! Suc i) = EnergySpawn \<longrightarrow>
             M \<le> fst ((evs @ [e]) ! Suc i) - fst ((evs @ [e]) ! i)"
proof (intro allI impI)
  fix i
  assume i: "Suc i < length (evs @ [e])" and k: "snd ((evs @ [e]) ! Suc i) = EnergySpawn"
  show "M \<le> fst ((evs @ [e]) ! Suc i) - fst ((evs @ [e]) ! i)"
  proof (cases "Suc i < length evs")
    case True
    then show ?thesis using assms(1) k by (simp add: nth_append)
  next
    case False
    with i have eq: "Suc i = length evs" by simp
    then have ne: "evs \<noteq> []" by auto
    have "(evs @ [e]) ! Suc i = e" using eq by (simp add: nth_append)
    moreover have "i = length evs - 1" "i < length evs" using eq by simp_all
    then have "(evs @ [e]) ! i = last evs" using ne by (simp add: nth_append last_conv_nth)
    ultimately show ?thesis using assms(2) ne k by simp
  qed
qed

lemma tick_invariant:
  assumes good: "\<forall>i. Suc i < length evs \<longrightarrow> snd (evs ! Suc i) = EnergySpawn \<longrightarrow>
             MIN_SPAWN_INTERVAL_MS \<le> fst (evs ! Suc i) - fst (evs ! i)"
    and last: "evs \<noteq> [] \<longrightarrow> last_spawn_ms (ob_manager g) = fst (last evs)"
  shows "(\<forall>i. Suc i < length (evs @ spawn_events r ratio ms g) \<longrightarrow>
            snd ((evs @ spawn_events r ratio ms g) ! Suc i) = EnergySpawn \<longrightarrow>
            MIN_SPAWN_INTERVAL_MS \<le> fst ((evs @ spawn_events r ratio ms g) ! Suc i)
                                       - fst ((evs @ spawn_events r ratio ms g) ! i))
       \<and> (evs @ spawn_events r ratio ms g \<noteq> [] \<longrightarrow>
            last_spawn_ms (ob_manager (spawn_logic_ratio r ratio ms g)) =
              fst (last (evs @ spawn_events r ratio ms g)))"
proof -
  have e1: "evs \<noteq> [] \<longrightarrow> snd (ms, EnergySpawn) = EnergySpawn \<longrightarrow>
              MIN_SPAWN_INTERVAL_MS \<le> fst (ms, EnergySpawn) - fst (last evs)"
    if "energy_spawned r ratio ms g"
    using energy_spawned_gate[OF that] last by auto
  have g1: "\<forall>i. Suc i < length (evs @ [(ms, EnergySpawn)]) \<longrightarrow>
            snd ((evs @ [(ms, EnergySpawn)]) ! Suc i) = EnergySpawn \<longrightarrow>
            MIN_SPAWN_INTERVAL_MS \<le> fst ((evs @ [(ms, EnergySpawn)]) ! Suc i)
                                       - fst ((evs @ [(ms, EnergySpawn)]) ! i)"
    if "energy_spawned r ratio ms g"
    using spaced_snoc[OF good e1[OF that]] .
  have g2: "\<forall>i. Suc i < length (xs @ [(ms, BoredomSpawn)]) \<longrightarrow>
            snd ((xs @ [(ms, BoredomSpawn)]) ! Suc i) = EnergySpawn \<longrightarrow>
            MIN_SPAWN_INTERVAL_MS \<le> fst ((xs @ [(ms, BoredomSpawn)]) ! Suc i)
                                       - fst ((xs @ [(ms, BoredomSpawn)]) ! i)"
    if "\<forall>i. Suc i < length xs \<longrightarrow> snd (xs ! Suc i) = EnergySpawn \<longrightarrow>
             MIN_SPAWN_INTERVAL_MS \<le> fst (xs ! Suc i) - fst (xs ! i)" for xs
    using spaced_snoc[OF that, of "(ms, BoredomSpawn)"] by simp
  have first: "\<forall>i. Suc i < length (evs @ spawn_events r ratio ms g) \<longrightarrow>
            snd ((evs @ spawn_events r ratio ms g) ! Suc i) = EnergySpawn \<longrightarrow>
            MIN_SPAWN_INTERVAL_MS \<le> fst ((evs @ spawn_events r ratio ms g) ! Suc i)
                                       - fst ((evs @ spawn_events r ratio ms g) ! i)"
  proof (cases "energy_spawned r ratio ms g")
    case e: True
    show ?thesis
    proof (cases "boredom_spawned r ratio ms g")
      case True
      have "evs @ spawn_events r ratio ms g = (evs @ [(ms, EnergySpawn)]) @ [(ms, BoredomSpawn)]"
        using e True by (simp add: spawn_events_def)
      then show ?thesis using g2[OF g1[OF e]] by simp
    next
      case False
      have "evs @ spawn_events r ratio ms g = evs @ [(ms, EnergySpawn)]"
        using e False by (simp add: spawn_events_def)
      then show ?thesis using g1[OF e] by simp
    qed
  next
    case e: False
    show ?thesis
    proof (cases "boredom_spawned r ratio ms g")
      case True
      have "evs @ spawn_events r ratio ms g = evs @ [(ms, BoredomSpawn)]"
        using e True by (simp add: spawn_events_def)
      then show ?thesis using g2[OF good] by simp
    next
      case False
      have "evs @ spawn_events r ratio ms g = evs"
        using e False by (simp add: spawn_events_def)
      then show ?thesis using good by simp
    qed
  qed
  have second: "evs @ spawn_events r ratio ms g \<noteq> [] \<longrightarrow>
            last_spawn_ms (ob_manager (spawn_logic_ratio r ratio ms g)) =
              fst (last (evs @ spawn_events r ratio ms g))"
  proof (cases "spawn_events r ratio ms g = []")
    case True
    then show ?thesis using last by (simp add: spawn_logic_ratio_last_spawn)
  next
    case False
    then have "fst (last (spawn_events r ratio ms g)) = ms"
      by (auto simp: spawn_events_def split: if_splits)
    with False show ?thesis by (simp add: spawn_logic_ratio_last_spawn)
  qed
  from first second show ?thesis by blast
qed

lemma play_invariant:
  assumes "\<forall>i. Suc i < length evs \<longrightarrow> snd (evs ! Suc i) = EnergySpawn \<longrightarrow>
             MIN_SPAWN_INTERVAL_MS \<le> fst (evs ! Suc i) - fst (evs ! i)"
    and "evs \<noteq> [] \<longrightarrow> last_spawn_ms (ob_manager g) = fst (last evs)"
    and "play ratio steps (g, evs) = (g', evs')"
  shows "(\<forall>i. Suc i < length evs' \<longrightarrow> snd (evs' ! Suc i) = EnergySpawn \<longrightarrow>
             MIN_SPAWN_INTERVAL_MS \<le> fst (evs' ! Suc i) - fst (evs' ! i))
       \<and> (evs' \<noteq> [] \<longrightarrow> last_spawn_ms (ob_manager g') = fst (last evs'))"
  using assms
proof (induction steps arbitrary: g evs)
  case Nil
  then show ?case by simp
next
  case (Cons st steps)
  show ?case
  proof (cases st)
    case (Tick r ms)
    with Cons.prems(3) have p: "play ratio steps
        (spawn_logic_ratio r ratio ms g, evs @ spawn_events r ratio ms g) = (g', evs')"
      by simp
    from tick_invariant[OF Cons.prems(1,2), of r ratio ms]
    show ?thesis using Cons.IH[OF _ _ p] by blast
  next
    case (Elsewhere f)
    with Cons.prems(3) have p: "play ratio steps
        ((f g)\<lparr>ob_manager := (ob_manager (f g))\<lparr>last_spawn_ms := last_spawn_ms (ob_manager g)\<rparr>\<rparr>,
         evs) = (g', evs')"
      by simp
    have "evs \<noteq> [] \<longrightarrow> last_spawn_ms (ob_manager ((f g)\<lparr>ob_manager := (ob_manager (f g))\<lparr>last_spawn_ms := last_spawn_ms (ob_manager g)\<rparr>\<rparr>)) = fst (last evs)"
      using Cons.prems(2) by simp
    from Cons.IH[OF Cons.prems(1) this p] show ?thesis .
  qed
qed

subsection \<open>The analyzer\<close>

lemma np_max_Inr: "vs \<noteq> [] \<Longrightarrow> np_max vs = Inr (fold max (tl vs) (hd vs))"
  by (cases vs) simp_all

lemma normalize_Nil: "normalize [] = Inl ValueError"
  by (simp add: normalize_def)

lemma normalize_Inr:
  "s \<noteq> [] \<Longrightarrow>
   normalize s =
     Inr (map (\<lambda>v. v / (if fold max (tl (map abs s)) (hd (map abs s)) = 0 then 1
                         else fold max (tl (map abs s)) (hd (map abs s)))) s)"
  by (simp add: normalize_def np_max_Inr Let_def)


lemma to_mono_empty: "array_of_samples au = [] \<Longrightarrow> to_mono au = Inr []"
  by (simp add: to_mono_def Let_def)

lemma to_mono_single: "channels au \<le> 1 \<Longrightarrow> to_mono au = Inr (map real_of_int (array_of_samples au))"
  by (simp add: to_mono_def Let_def)


lemma samples_per_window_of_div: "samples_per_window_of rate w = rate * w div 1000"
proof -
  have "real rate * (real w / 1000) = real (rate * w) / real 1000" by simp
  moreover have "\<lfloor>real (rate * w) / real 1000\<rfloor> = int (rate * w div 1000)"
    by (simp only: floor_divide_of_nat_eq)
  moreover have "0 \<le> real rate * (real w / 1000)" by simp
  ultimately show ?thesis by (simp add: samples_per_window_of_def py_int_def)
qed

lemma baseline_loop_length: "length (baseline_loop N cum dq es) = length es"
  by (induction es arbitrary: cum dq) (simp_all add: Let_def)

lemma compute_running_baseline_length: "length (compute_running_baseline N en) = length en"
  by (simp add: compute_running_baseline_def baseline_loop_length)

lemma compute_energy_length: "length (compute_energy s spw nw) = nw"
  by (simp add: compute_energy_def)


lemma init_Inr:
  "AudioAnalyzer_init au w = Inr a \<longleftrightarrow>
     (\<exists>m s. to_mono au = Inr m \<and> normalize m = Inr s \<and>
        samples_per_window_of (frame_rate au) w \<noteq> 0 \<and>
        a = \<lparr>ms_per_window = w, sample_rate = frame_rate au, samples = s,
             samples_per_window = samples_per_window_of (frame_rate au) w,
             num_windows = max 1 (nat \<lceil>real (length s) / real (samples_per_window_of (frame_rate au) w)\<rceil>),
             energy = compute_energy s (samples_per_window_of (frame_rate au) w)
                        (max 1 (nat \<lceil>real (length s) / real (samples_per_window_of (frame_rate au) w)\<rceil>)),
             baseline = compute_running_baseline ENERGY_BASELINE_BUFFER
                         (compute_energy s (samples_per_window_of (frame_rate au) w)
                            (max 1 (nat \<lceil>real (length s) / real (samples_per_window_of (frame_rate au) w)\<rceil>)))\<rparr>)"
  by (auto simp: AudioAnalyzer_init_def num_windows_of_def Let_def split: sum.splits)

lemma init_succeeds:
  assumes "array_of_samples au \<noteq> []"
    and "1 < channels au \<longrightarrow> length (array_of_samples au) mod channels au = 0"
    and "1000 \<le> frame_rate au * w"
  shows "\<exists>a. AudioAnalyzer_init au w = Inr a"
proof -
  obtain m where m: "to_mono au = Inr m" "m \<noteq> []"
  proof (cases "1 < channels au")
    case False
    then have "to_mono au = Inr (map real_of_int (array_of_samples au))"
      by (simp add: to_mono_single)
    with assms(1) that show ?thesis by simp
  next
    case True
    with assms(2) have d: "channels au dvd length (array_of_samples au)" by auto
    with assms(1) True have "channels au \<le> length (array_of_samples au)"
      by (intro dvd_imp_le) simp_all
    with True have "0 < length (array_of_samples au) div channels au"
      by (simp add: div_greater_zero_iff)
    with True assms(2) that show ?thesis
      by (simp add: to_mono_def Let_def)
  qed
  from m(2) obtain s where s: "normalize m = Inr s" by (auto simp: normalize_Inr)
  from assms(3) have "samples_per_window_of (frame_rate au) w \<noteq> 0"
    by (simp add: samples_per_window_of_div div_greater_zero_iff)
  with m(1) s show ?thesis unfolding init_Inr by blast
qed

subsection \<open>The running baseline\<close>





subsection \<open>Window indices and positivity\<close>

lemma py_int_mono: "u \<le> v \<Longrightarrow> py_int u \<le> py_int v"
proof -
  assume uv: "u \<le> v"
  show ?thesis
  proof (cases "0 \<le> u")
    case True
    with uv show ?thesis by (simp add: py_int_def floor_mono)
  next
    case u: False
    show ?thesis
    proof (cases "0 \<le> v")
      case True
      have "\<lceil>u\<rceil> \<le> 0" using u by (simp add: ceiling_le_iff)
      moreover have "0 \<le> \<lfloor>v\<rfloor>" using True by simp
      ultimately have "\<lceil>u\<rceil> \<le> \<lfloor>v\<rfloor>" by linarith
      then show ?thesis using u True by (simp add: py_int_def)
    next
      case False
      with u uv show ?thesis by (simp add: py_int_def ceiling_mono)
    qed
  qed
qed

lemma clamp_mono: "u \<le> v \<Longrightarrow> clamp u lo hi \<le> clamp v lo hi"
  by (auto simp: clamp_def)

lemma clamp_range: "lo \<le> hi \<Longrightarrow> lo \<le> clamp v lo hi \<and> clamp v lo hi \<le> hi"
  by (auto simp: clamp_def)

lemma init_facts:
  assumes "AudioAnalyzer_init au w = Inr a"
  shows "ms_per_window a = w" "0 < w" "1 \<le> num_windows a"
    "length (energy a) = num_windows a" "length (baseline a) = num_windows a"
    "baseline a = compute_running_baseline ENERGY_BASELINE_BUFFER (energy a)"
    "energy a = compute_energy (samples a) (samples_per_window a) (num_windows a)"
proof -
  from assms obtain s where
    spw: "samples_per_window_of (frame_rate au) w \<noteq> 0"
    and a: "a = \<lparr>ms_per_window = w, sample_rate = frame_rate au, samples = s,
             samples_per_window = samples_per_window_of (frame_rate au) w,
             num_windows = max 1 (nat \<lceil>real (length s) / real (samples_per_window_of (frame_rate au) w)\<rceil>),
             energy = compute_energy s (samples_per_window_of (frame_rate au) w)
                        (max 1 (nat \<lceil>real (length s) / real (samples_per_window_of (frame_rate au) w)\<rceil>)),
             baseline = compute_running_baseline ENERGY_BASELINE_BUFFER
                         (compute_energy s (samples_per_window_of (frame_rate au) w)
                            (max 1 (nat \<lceil>real (length s) / real (samples_per_window_of (frame_rate au) w)\<rceil>)))\<rparr>"
    unfolding init_Inr by blast
  show "ms_per_window a = w" by (simp add: a)
  from spw show "0 < w" by (cases "w = 0") (simp_all add: samples_per_window_of_div)
  show "1 \<le> num_windows a" by (simp add: a)
  show "length (energy a) = num_windows a" by (simp add: a compute_energy_length)
  show "length (baseline a) = num_windows a"
    by (simp add: a compute_running_baseline_length compute_energy_length)
  show "baseline a = compute_running_baseline ENERGY_BASELINE_BUFFER (energy a)" by (simp add: a)
  show "energy a = compute_energy (samples a) (samples_per_window a) (num_windows a)"
    by (simp add: a)
qed

lemma window_index_Inr:
  "ms_per_window a \<noteq> 0 \<Longrightarrow>
   get_window_index_for_ms a ms =
     Inr (clamp (py_int (real_of_int ms / real (ms_per_window a))) 0 (int (num_windows a) - 1))"
  by (simp add: get_window_index_for_ms_def Let_def)





section \<open>The claims\<close>

subsection \<open>C8: passed obstacles are marked once and counted when close\<close>


subsection \<open>C1: an accepted placement leaves a lane free\<close>

text \<open>
  Claim C1.  The placement search makes at most 8 trials and returns the first drawn
  start whose occupancy array still contains a 0; it fails exactly when all 8 trials
  are fully marked.  For the accepted start there is a lane of the field that is
  unmarked: it is neither one of the candidate's lanes nor a lane of any existing
  obstacle whose arrival time is within 0.6 s of the new obstacle's.  The audio-driven
  part of \<^verbatim>\<open>spawn_logic\<close> appends an obstacle only at a start the search accepted, and
  appends nothing when the search fails.
\<close>

theorem placement_keeps_a_lane_free:
  "(place_search r obs lc = Some ls \<longrightarrow>
      (\<exists>k<8. ls = randint r k (LANES - lc + 1) \<and>
         (\<forall>i<k. 0 \<notin> set (trial_blocks obs (randint r i (LANES - lc + 1)) lc))) \<and>
      (\<exists>l. 0 \<le> l \<and> l < LANES \<and> trial_blocks obs ls lc ! nat l = 0 \<and>
           \<not> (ls \<le> l \<and> l < ls + lc) \<and>
           (\<forall>ob\<in>set obs. in_slice ob \<longrightarrow>
               \<not> (lane_start ob \<le> l \<and> l < lane_start ob + lane_count ob))))
   \<and> (place_search r obs lc = None \<longleftrightarrow>
        (\<forall>k<8. 0 \<notin> set (trial_blocks obs (randint r k (LANES - lc + 1)) lc)))
   \<and> (energy_phase r ratio ms g = Some g' \<longrightarrow>
        obstacles (ob_manager g') = obstacles (ob_manager g) \<or>
        (\<exists>ls' lc'. place_search r (obstacles (ob_manager g)) lc' = Some ls' \<and>
            obstacles (ob_manager g') =
              obstacles (ob_manager g) @ [Obstacle ls' lc' (real_of_int spawn_x)]))"
proof (intro conjI impI)
  assume s: "place_search r obs lc = Some ls"
  from place_trials_Some[OF s[unfolded place_search_def]]
  obtain j where j: "j < 8" "ls = randint r j (LANES - lc + 1)"
    "0 \<in> set (trial_blocks obs ls lc)"
    "\<forall>i. 0 \<le> i \<and> i < j \<longrightarrow> 0 \<notin> set (trial_blocks obs (randint r i (LANES - lc + 1)) lc)"
    by auto
  then show "\<exists>k<8. ls = randint r k (LANES - lc + 1) \<and>
         (\<forall>i<k. 0 \<notin> set (trial_blocks obs (randint r i (LANES - lc + 1)) lc))"
    by auto
  from free_lane_of_zero[OF j(3)] obtain l where
    l: "0 \<le> l" "l < LANES" "trial_blocks obs ls lc ! nat l = 0" by blast
  have "0 \<le> ls" using j(2) by (simp add: randint_nonneg)
  from trial_blocks_nth[OF this l(1,2), of obs lc] l(3)
  have "\<not> (ls \<le> l \<and> l < ls + lc) \<and>
           (\<forall>ob\<in>set obs. in_slice ob \<longrightarrow>
               \<not> (lane_start ob \<le> l \<and> l < lane_start ob + lane_count ob))"
    by (auto split: if_splits)
  with l show "\<exists>l. 0 \<le> l \<and> l < LANES \<and> trial_blocks obs ls lc ! nat l = 0 \<and>
           \<not> (ls \<le> l \<and> l < ls + lc) \<and>
           (\<forall>ob\<in>set obs. in_slice ob \<longrightarrow>
               \<not> (lane_start ob \<le> l \<and> l < lane_start ob + lane_count ob))"
    by blast
next
  show "place_search r obs lc = None \<longleftrightarrow>
        (\<forall>k<8. 0 \<notin> set (trial_blocks obs (randint r k (LANES - lc + 1)) lc))"
    unfolding place_search_def place_trials_None by simp
next
  assume "energy_phase r ratio ms g = Some g'"
  then show "obstacles (ob_manager g') = obstacles (ob_manager g) \<or>
        (\<exists>ls' lc'. place_search r (obstacles (ob_manager g)) lc' = Some ls' \<and>
            obstacles (ob_manager g') =
              obstacles (ob_manager g) @ [Obstacle ls' lc' (real_of_int spawn_x)])"
    by (rule energy_phase_obstacles)
qed

theorem placement_keeps_a_lane_free_witness:
  "place_search example_rng [Obstacle 0 6 1700] 4 = Some 2
   \<and> (\<exists>l. 0 \<le> l \<and> l < LANES \<and> trial_blocks [Obstacle 0 6 1700] 2 4 ! nat l = 0 \<and>
          \<not> (2 \<le> l \<and> l < 2 + 4) \<and>
          (\<forall>ob\<in>set [Obstacle 0 6 1700]. in_slice ob \<longrightarrow>
              \<not> (lane_start ob \<le> l \<and> l < lane_start ob + lane_count ob)))
   \<and> energy_phase example_rng 3 0 crowded_game =
       Some (crowded_game\<lparr>recent_high_count := 1,
               ob_manager := \<lparr>obstacles = [Obstacle 0 6 1700, Obstacle 2 4 1700],
                               last_spawn_ms = 0, last_heavy_ms = 0\<rparr>\<rparr>)"
proof -
  have h1: "place_search example_rng [Obstacle 0 6 1700] 4 = Some 2"
    by code_simp
  have h2: "energy_phase example_rng 3 0 crowded_game =
       Some (crowded_game\<lparr>recent_high_count := 1,
               ob_manager := \<lparr>obstacles = [Obstacle 0 6 1700, Obstacle 2 4 1700],
                               last_spawn_ms = 0, last_heavy_ms = 0\<rparr>\<rparr>)"
    by code_simp
  from placement_keeps_a_lane_free [where r = example_rng and obs = "[Obstacle 0 6 1700]"
      and lc = 4 and ls = 2] h1 h2
  show ?thesis by blast
qed

subsection \<open>C2: the streak counter\<close>

text \<open>
  Claim C2, amended.  \<^verbatim>\<open>recent_high_count\<close> starts at 0 and a call of \<^verbatim>\<open>spawn_logic\<close>
  never takes it above 4.  When the minimum-interval gate is open, a ratio of at least
  \<^verbatim>\<open>HIGH_TH\<close> increments it up to the cap 4, and a ratio below \<^verbatim>\<open>HIGH_TH\<close> that is
  classified (it is at least \<^verbatim>\<open>LOW_TH\<close>, or the quiet-region roll is below 0.05) resets
  it to 0.  When the gate is closed the counter is left as it is, whatever the ratio.
\<close>

theorem recent_high_count_capped:
  "recent_high_count Game_init = 0
   \<and> (recent_high_count g \<le> 4 \<longrightarrow> recent_high_count (spawn_logic_ratio r ratio ms g) \<le> 4)
   \<and> (MIN_SPAWN_INTERVAL_MS \<le> ms - last_spawn_ms (ob_manager g) \<and> HIGH_TH \<le> ratio \<longrightarrow>
        recent_high_count (spawn_logic_ratio r ratio ms g) = min (recent_high_count g + 1) 4)
   \<and> (MIN_SPAWN_INTERVAL_MS \<le> ms - last_spawn_ms (ob_manager g) \<and> ratio < HIGH_TH \<and>
        (LOW_TH \<le> ratio \<or> rand_roll r < 0.05) \<longrightarrow>
        recent_high_count (spawn_logic_ratio r ratio ms g) = 0)
   \<and> (ms - last_spawn_ms (ob_manager g) < MIN_SPAWN_INTERVAL_MS \<longrightarrow>
        recent_high_count (spawn_logic_ratio r ratio ms g) = recent_high_count g)"
proof (intro conjI impI)
  show "recent_high_count Game_init = 0" by (simp add: Game_init_def)
next
  assume "recent_high_count g \<le> 4"
  then show "recent_high_count (spawn_logic_ratio r ratio ms g) \<le> 4"
    unfolding spawn_logic_ratio_rhc
    by (auto split: option.splits dest: streak_tier_bound)
next
  assume "MIN_SPAWN_INTERVAL_MS \<le> ms - last_spawn_ms (ob_manager g) \<and> HIGH_TH \<le> ratio"
  then show "recent_high_count (spawn_logic_ratio r ratio ms g) = min (recent_high_count g + 1) 4"
    unfolding spawn_logic_ratio_rhc by (simp add: streak_tier_high)
next
  assume a: "MIN_SPAWN_INTERVAL_MS \<le> ms - last_spawn_ms (ob_manager g) \<and> ratio < HIGH_TH \<and>
        (LOW_TH \<le> ratio \<or> rand_roll r < 0.05)"
  then obtain t where "streak_tier ratio (rand_roll r) (recent_high_count g) = Some (t, 0)"
    using streak_tier_classified[of ratio "rand_roll r" "recent_high_count g"] by blast
  with a show "recent_high_count (spawn_logic_ratio r ratio ms g) = 0"
    unfolding spawn_logic_ratio_rhc by simp
next
  assume "ms - last_spawn_ms (ob_manager g) < MIN_SPAWN_INTERVAL_MS"
  then show "recent_high_count (spawn_logic_ratio r ratio ms g) = recent_high_count g"
    unfolding spawn_logic_ratio_rhc by simp
qed

text \<open>
  As stated, the claim resets the counter on every tick with a ratio below \<^verbatim>\<open>HIGH_TH\<close>.
  After a high tick at 0 ms, which spawns and sets the counter to 1, a tick at 100 ms
  with ratio 1.2 finds the gate closed and leaves the counter at 1.
\<close>

theorem recent_high_count_not_reset_counterexample:
  "(12 / 10 :: real) < HIGH_TH \<and>
   recent_high_count
     (spawn_logic_ratio example_rng (12 / 10) 100 (spawn_logic_ratio example_rng 3 0 Game_init)) = 1"
  by code_simp

theorem recent_high_count_capped_witness:
  "recent_high_count (spawn_logic_ratio example_rng 3 0 (Game_init\<lparr>recent_high_count := 4\<rparr>)) = 4
   \<and> recent_high_count (spawn_logic_ratio example_rng (12 / 10) 0 (Game_init\<lparr>recent_high_count := 4\<rparr>)) = 0
   \<and> recent_high_count (spawn_logic_ratio example_rng (12 / 10) (- 9900) (Game_init\<lparr>recent_high_count := 4\<rparr>)) = 4"
proof -
  have g: "recent_high_count (Game_init\<lparr>recent_high_count := 4\<rparr>) \<le> 4" by simp
  have a: "MIN_SPAWN_INTERVAL_MS \<le> 0 - last_spawn_ms (ob_manager (Game_init\<lparr>recent_high_count := 4\<rparr>))"
    by code_simp
  have b: "- 9900 - last_spawn_ms (ob_manager (Game_init\<lparr>recent_high_count := 4\<rparr>)) < MIN_SPAWN_INTERVAL_MS"
    by code_simp
  have h: "HIGH_TH \<le> 3" "(12 / 10 :: real) < HIGH_TH" "LOW_TH \<le> 12 / 10"
    by (simp_all add: HIGH_TH_def LOW_TH_def)
  have c: "recent_high_count (Game_init\<lparr>recent_high_count := 4\<rparr>) = 4" by simp
  from recent_high_count_capped [of "Game_init\<lparr>recent_high_count := 4\<rparr>" example_rng 3 0] g a h
  have 1: "recent_high_count (spawn_logic_ratio example_rng 3 0 (Game_init\<lparr>recent_high_count := 4\<rparr>)) = 4"
    by simp
  from recent_high_count_capped [of "Game_init\<lparr>recent_high_count := 4\<rparr>" example_rng "12 / 10" 0] a h
  have 2: "recent_high_count (spawn_logic_ratio example_rng (12 / 10) 0 (Game_init\<lparr>recent_high_count := 4\<rparr>)) = 0"
    by simp
  from recent_high_count_capped [of "Game_init\<lparr>recent_high_count := 4\<rparr>" example_rng "12 / 10" "- 9900"] b
  have 3: "recent_high_count (spawn_logic_ratio example_rng (12 / 10) (- 9900) (Game_init\<lparr>recent_high_count := 4\<rparr>)) = 4"
    by simp
  from 1 2 3 show ?thesis by simp
qed

subsection \<open>C3: no wide obstacle during the heavy cooldown\<close>

text \<open>
  Claim C3.  A tier \<^verbatim>\<open>high\<close> reached fewer than \<^verbatim>\<open>HEAVY_COOLDOWN_MS\<close> (600 ms) after
  \<^verbatim>\<open>last_heavy_ms\<close> is downgraded to \<^verbatim>\<open>medium\<close>, whose lane counts are below 4.  So a call
  of \<^verbatim>\<open>spawn_logic\<close> within the cooldown keeps the lane counts of the obstacles that
  exist, gives every obstacle it appends a lane count below 4, and leaves
  \<^verbatim>\<open>last_heavy_ms\<close> as it is.
\<close>

theorem heavy_cooldown_blocks_wide_obstacles:
  "(ms - heavy_ms < HEAVY_COOLDOWN_MS \<longrightarrow> cooldown_tier High ms heavy_ms = Medium)
   \<and> HEAVY_COOLDOWN_MS = 600
   \<and> choose_lane_count r Medium < 4
   \<and> (ms - last_heavy_ms (ob_manager g) < HEAVY_COOLDOWN_MS \<longrightarrow>
        length (obstacles (ob_manager g)) \<le> length (obstacles (ob_manager (spawn_logic_ratio r ratio ms g)))
        \<and> map lane_count (take (length (obstacles (ob_manager g)))
                            (obstacles (ob_manager (spawn_logic_ratio r ratio ms g))))
            = map lane_count (obstacles (ob_manager g))
        \<and> (\<forall>ob\<in>set (drop (length (obstacles (ob_manager g)))
                         (obstacles (ob_manager (spawn_logic_ratio r ratio ms g)))).
              lane_count ob < 4)
        \<and> last_heavy_ms (ob_manager (spawn_logic_ratio r ratio ms g)) = last_heavy_ms (ob_manager g))"
proof (intro conjI impI)
  assume "ms - heavy_ms < HEAVY_COOLDOWN_MS"
  then show "cooldown_tier High ms heavy_ms = Medium" by (simp add: cooldown_tier_def)
next
  show "HEAVY_COOLDOWN_MS = 600" by (simp add: HEAVY_COOLDOWN_MS_def)
next
  show "choose_lane_count r Medium < 4" by (simp add: choose_lane_count_small)
next
  assume cd: "ms - last_heavy_ms (ob_manager g) < HEAVY_COOLDOWN_MS"
  define old where "old = obstacles (ob_manager g)"
  define new where "new = obstacles (ob_manager (spawn_logic_ratio r ratio ms g))"
  have main: "last_heavy_ms (ob_manager (spawn_logic_ratio r ratio ms g)) = last_heavy_ms (ob_manager g)
      \<and> (\<exists>kept added. new = kept @ added \<and> length kept = length old \<and>
            map lane_count kept = map lane_count old \<and> (\<forall>ob\<in>set added. lane_count ob < 4))"
  proof (cases "energy_phase r ratio ms g")
    case None
    then have "spawn_logic_ratio r ratio ms g = g" by (simp add: spawn_logic_ratio_def)
    then have "new = old @ []" by (simp add: new_def old_def)
    with \<open>spawn_logic_ratio r ratio ms g = g\<close> show ?thesis by force
  next
    case (Some g1)
    then have sl: "spawn_logic_ratio r ratio ms g = boredom_phase ms g1"
      by (simp add: spawn_logic_ratio_def)
    from energy_phase_cooldown[OF Some cd] obtain mid where
      h: "last_heavy_ms (ob_manager g1) = last_heavy_ms (ob_manager g)"
      and mid: "obstacles (ob_manager g1) = old @ mid" "\<forall>ob\<in>set mid. lane_count ob < 4"
      unfolding old_def by (force simp: Obstacle_def)
    from boredom_phase_obstacles[of ms g1] have
      bh: "last_heavy_ms (ob_manager (boredom_phase ms g1)) = last_heavy_ms (ob_manager g1)"
      and cases: "obstacles (ob_manager (boredom_phase ms g1)) = obstacles (ob_manager g1) \<or>
        (\<exists>shifted. length shifted = length (obstacles (ob_manager g1)) \<and>
        map lane_count shifted = map lane_count (obstacles (ob_manager g1)) \<and>
        obstacles (ob_manager (boredom_phase ms g1)) =
          shifted @ [Obstacle (lane (player g1)) 1 (real_of_int spawn_x)])"
      by blast+
    from cases show ?thesis
    proof
      assume "obstacles (ob_manager (boredom_phase ms g1)) = obstacles (ob_manager g1)"
      then have "new = old @ mid" by (simp add: new_def sl mid)
      with mid h bh sl show ?thesis by force
    next
      assume "\<exists>shifted. length shifted = length (obstacles (ob_manager g1)) \<and>
        map lane_count shifted = map lane_count (obstacles (ob_manager g1)) \<and>
        obstacles (ob_manager (boredom_phase ms g1)) =
          shifted @ [Obstacle (lane (player g1)) 1 (real_of_int spawn_x)]"
      then obtain shifted where s: "length shifted = length (old @ mid)"
        "map lane_count shifted = map lane_count (old @ mid)"
        "new = shifted @ [Obstacle (lane (player g1)) 1 (real_of_int spawn_x)]"
        by (auto simp: new_def sl mid)
      define kept where "kept = take (length old) shifted"
      define added where "added = drop (length old) shifted @ [Obstacle (lane (player g1)) 1 (real_of_int spawn_x)]"
      have n: "new = kept @ added" by (simp add: s kept_def added_def)
      have lk: "length kept = length old" using s(1) by (simp add: kept_def)
      have "map lane_count kept = take (length old) (map lane_count shifted)"
        by (simp add: kept_def take_map)
      then have mk: "map lane_count kept = map lane_count old" by (simp add: s(2))
      have "map lane_count (drop (length old) shifted) = drop (length old) (map lane_count shifted)"
        by (simp add: drop_map)
      then have "map lane_count (drop (length old) shifted) = map lane_count mid"
        by (simp add: s(2))
      then have "set (map lane_count (drop (length old) shifted)) = set (map lane_count mid)" by simp
      then have "\<forall>ob\<in>set (drop (length old) shifted). lane_count ob < 4"
        using mid(2) by (auto simp: image_iff) (metis (no_types, lifting) image_iff)
      then have "\<forall>ob\<in>set added. lane_count ob < 4" by (auto simp: added_def Obstacle_def)
      with n lk mk h bh sl show ?thesis by force
    qed
  qed
  then obtain kept added where ka: "new = kept @ added" "length kept = length old"
    "map lane_count kept = map lane_count old" "\<forall>ob\<in>set added. lane_count ob < 4"
    by blast
  show "length (obstacles (ob_manager g)) \<le> length (obstacles (ob_manager (spawn_logic_ratio r ratio ms g)))"
    using ka by (simp add: new_def[symmetric] old_def[symmetric])
  show "map lane_count (take (length (obstacles (ob_manager g)))
                            (obstacles (ob_manager (spawn_logic_ratio r ratio ms g))))
            = map lane_count (obstacles (ob_manager g))"
    using ka by (simp add: new_def[symmetric] old_def[symmetric])
  show "\<forall>ob\<in>set (drop (length (obstacles (ob_manager g)))
                         (obstacles (ob_manager (spawn_logic_ratio r ratio ms g)))).
              lane_count ob < 4"
    using ka by (simp add: new_def[symmetric] old_def[symmetric])
  show "last_heavy_ms (ob_manager (spawn_logic_ratio r ratio ms g)) = last_heavy_ms (ob_manager g)"
    using main by simp
qed

theorem heavy_cooldown_blocks_wide_obstacles_witness:
  "300 - last_heavy_ms (ob_manager (Game_init\<lparr>ob_manager := spawn 0 4 0 ObstacleManager\<rparr>))
     < HEAVY_COOLDOWN_MS
   \<and> cooldown_tier High 300 0 = Medium
   \<and> map lane_count
        (obstacles (ob_manager (spawn_logic_ratio example_rng 3 300
           (Game_init\<lparr>ob_manager := spawn 0 4 0 ObstacleManager\<rparr>)))) = [4, 2]
   \<and> list_all (\<lambda>ob. lane_count ob < 4)
        (drop (length (obstacles (ob_manager
                 (Game_init\<lparr>ob_manager := spawn 0 4 0 ObstacleManager\<rparr>))))
           (obstacles (ob_manager (spawn_logic_ratio example_rng 3 300
              (Game_init\<lparr>ob_manager := spawn 0 4 0 ObstacleManager\<rparr>)))))
   \<and> last_heavy_ms (ob_manager (spawn_logic_ratio example_rng 3 300
         (Game_init\<lparr>ob_manager := spawn 0 4 0 ObstacleManager\<rparr>))) = 0"
proof -
  have h1: "300 - last_heavy_ms (ob_manager (Game_init\<lparr>ob_manager := spawn 0 4 0 ObstacleManager\<rparr>))
     < HEAVY_COOLDOWN_MS"
    by code_simp
  have h2: "(300::int) - 0 < HEAVY_COOLDOWN_MS"
    by (simp add: HEAVY_COOLDOWN_MS_def)
  have h3: "map lane_count
        (obstacles (ob_manager (spawn_logic_ratio example_rng 3 300
           (Game_init\<lparr>ob_manager := spawn 0 4 0 ObstacleManager\<rparr>)))) = [4, 2]"
    by code_simp
  have h4: "last_heavy_ms (ob_manager (Game_init\<lparr>ob_manager := spawn 0 4 0 ObstacleManager\<rparr>)) = 0"
    by code_simp
  from heavy_cooldown_blocks_wide_obstacles [of 300 0 example_rng
      "Game_init\<lparr>ob_manager := spawn 0 4 0 ObstacleManager\<rparr>" 3] h1 h2 h3 h4
  show ?thesis by (simp add: list_all_iff)
qed

subsection \<open>C4: the minimum spawn interval\<close>

text \<open>
  Claim C4, amended.  In every run from a fresh game under a signal of constant ratio,
  in particular the ratio \<^verbatim>\<open>LOW_TH\<close>, each audio-driven spawn comes at least
  \<^verbatim>\<open>MIN_SPAWN_INTERVAL_MS\<close> (150 ms) after the spawn before it, of either kind: the
  audio-driven part spawns only when \<^verbatim>\<open>current_ms - last_spawn_ms\<close> is at least 150, and
  every spawn, audio-driven or boredom, sets \<^verbatim>\<open>last_spawn_ms\<close> to the time of the call.
  The boredom spawn is not gated by the interval.
\<close>

theorem energy_spawns_respect_min_interval:
  "(play ratio steps (Game_init, []) = (g', evs) \<longrightarrow>
      (\<forall>i. Suc i < length evs \<longrightarrow> snd (evs ! Suc i) = EnergySpawn \<longrightarrow>
            MIN_SPAWN_INTERVAL_MS \<le> fst (evs ! Suc i) - fst (evs ! i))
      \<and> (evs \<noteq> [] \<longrightarrow> last_spawn_ms (ob_manager g') = fst (last evs)))
   \<and> (energy_spawned r ratio ms g \<longrightarrow>
        MIN_SPAWN_INTERVAL_MS \<le> ms - last_spawn_ms (ob_manager g))
   \<and> (spawn_events r ratio ms g \<noteq> [] \<longrightarrow>
        last_spawn_ms (ob_manager (spawn_logic_ratio r ratio ms g)) = ms)
   \<and> MIN_SPAWN_INTERVAL_MS = 150"
proof (intro conjI impI)
  assume p: "play ratio steps (Game_init, []) = (g', evs)"
  have a: "\<forall>i. Suc i < length ([]::(int \<times> spawn_kind) list) \<longrightarrow> snd ([] ! Suc i) = EnergySpawn \<longrightarrow>
             MIN_SPAWN_INTERVAL_MS \<le> fst (([]::(int \<times> spawn_kind) list) ! Suc i) - fst ([] ! i)"
    by simp
  have b: "([]::(int \<times> spawn_kind) list) \<noteq> [] \<longrightarrow> last_spawn_ms (ob_manager Game_init) = fst (last [])"
    by simp
  from play_invariant[OF a b p]
  show "\<forall>i. Suc i < length evs \<longrightarrow> snd (evs ! Suc i) = EnergySpawn \<longrightarrow>
            MIN_SPAWN_INTERVAL_MS \<le> fst (evs ! Suc i) - fst (evs ! i)"
    and "evs \<noteq> [] \<Longrightarrow> last_spawn_ms (ob_manager g') = fst (last evs)"
    by blast+
next
  assume "energy_spawned r ratio ms g"
  then show "MIN_SPAWN_INTERVAL_MS \<le> ms - last_spawn_ms (ob_manager g)"
    by (rule energy_spawned_gate)
next
  assume "spawn_events r ratio ms g \<noteq> []"
  then show "last_spawn_ms (ob_manager (spawn_logic_ratio r ratio ms g)) = ms"
    by (simp add: spawn_logic_ratio_last_spawn)
next
  show "MIN_SPAWN_INTERVAL_MS = 150" by (simp add: MIN_SPAWN_INTERVAL_MS_def)
qed

text \<open>
  As stated, the claim covers spawns of any kind.  With the ratio at \<^verbatim>\<open>LOW_TH\<close>, a call
  at 0 ms and a call at 510 ms give an audio-driven spawn at 0 and, in the second call,
  an audio-driven spawn and a boredom spawn (the player has not changed lane for more
  than 500 ms and no obstacle has been near for more than 400 ms), both at 510.
\<close>

theorem spawns_closer_than_min_interval_counterexample:
  "snd (play LOW_TH [Tick example_rng 0, Tick example_rng 510] (Game_init, [])) =
     [(0, EnergySpawn), (510, EnergySpawn), (510, BoredomSpawn)]
   \<and> \<not> MIN_SPAWN_INTERVAL_MS \<le> 510 - 510"
  by code_simp

theorem energy_spawns_respect_min_interval_witness:
  "snd (play LOW_TH [Tick example_rng 0, Elsewhere (advance (1 / 5) 0), Tick example_rng 200]
          (Game_init, [])) = [(0, EnergySpawn), (200, EnergySpawn)]
   \<and> MIN_SPAWN_INTERVAL_MS \<le> 200 - 0
   \<and> last_spawn_ms (ob_manager (fst (play LOW_TH
        [Tick example_rng 0, Elsewhere (advance (1 / 5) 0), Tick example_rng 200]
        (Game_init, [])))) = 200
   \<and> energy_spawned example_rng LOW_TH 0 Game_init
   \<and> MIN_SPAWN_INTERVAL_MS \<le> 0 - last_spawn_ms (ob_manager Game_init)
   \<and> last_spawn_ms (ob_manager (spawn_logic_ratio example_rng LOW_TH 0 Game_init)) = 0"
proof -
  define steps where
    "steps = [Tick example_rng 0, Elsewhere (advance (1 / 5) 0), Tick example_rng 200]"
  have run: "snd (play LOW_TH steps (Game_init, [])) = [(0, EnergySpawn), (200, EnergySpawn)]"
    unfolding steps_def by code_simp
  have p: "play LOW_TH steps (Game_init, []) =
             (fst (play LOW_TH steps (Game_init, [])), snd (play LOW_TH steps (Game_init, [])))"
    by simp
  have es: "energy_spawned example_rng LOW_TH 0 Game_init"
    by code_simp
  have ev: "spawn_events example_rng LOW_TH 0 Game_init \<noteq> []"
    using es by (simp add: spawn_events_def)
  note t = energy_spawns_respect_min_interval [where ratio = LOW_TH and steps = steps
      and g' = "fst (play LOW_TH steps (Game_init, []))"
      and evs = "snd (play LOW_TH steps (Game_init, []))"
      and r = example_rng and ms = 0 and g = Game_init]
  from t p have
    sp: "\<forall>i. Suc i < length (snd (play LOW_TH steps (Game_init, []))) \<longrightarrow>
           snd (snd (play LOW_TH steps (Game_init, [])) ! Suc i) = EnergySpawn \<longrightarrow>
           MIN_SPAWN_INTERVAL_MS \<le> fst (snd (play LOW_TH steps (Game_init, [])) ! Suc i)
                                      - fst (snd (play LOW_TH steps (Game_init, [])) ! i)"
    and la: "snd (play LOW_TH steps (Game_init, [])) \<noteq> [] \<longrightarrow>
           last_spawn_ms (ob_manager (fst (play LOW_TH steps (Game_init, [])))) =
             fst (last (snd (play LOW_TH steps (Game_init, []))))"
    by blast+
  from sp[rule_format, of 0] have 1: "MIN_SPAWN_INTERVAL_MS \<le> 200 - 0"
    unfolding run by simp
  from la have 2: "last_spawn_ms (ob_manager (fst (play LOW_TH steps (Game_init, [])))) = 200"
    unfolding run by simp
  from t es have 3: "MIN_SPAWN_INTERVAL_MS \<le> 0 - last_spawn_ms (ob_manager Game_init)"
    by blast
  from t ev have 4: "last_spawn_ms (ob_manager (spawn_logic_ratio example_rng LOW_TH 0 Game_init)) = 0"
    by blast
  from run 1 2 es 3 4 show ?thesis unfolding steps_def by simp
qed

subsection \<open>C5: the empty sample buffer\<close>

text \<open>
  Claim C5.  The claim is that an empty sample buffer yields an analyzer with one
  zero-energy window.  In the code, \<^verbatim>\<open>np.max(np.abs(self.samples))\<close> is evaluated before
  the window count, and on an empty array it raises \<^verbatim>\<open>ValueError\<close>: for every frame rate,
  channel count and window length, the construction fails on an empty buffer.
\<close>

theorem empty_buffer_raises:
  "\<forall>rate ch w. AudioAnalyzer_init \<lparr>frame_rate = rate, channels = ch, array_of_samples = []\<rparr> w
      = Inl ValueError"
  by (simp add: AudioAnalyzer_init_def to_mono_empty normalize_Nil)

subsection \<open>C6: the windows of the analyzer\<close>




subsection \<open>C7: the baseline is a trailing mean\<close>



subsection \<open>C9: the window index is monotone and clamped\<close>

text \<open>
  Claim C9.  For an analyzer that was constructed, \<^verbatim>\<open>get_window_index_for_ms\<close> returns
  an index for every integer timestamp, negative or beyond the end of the track; the
  index lies between 0 and \<open>numWindows - 1\<close>, and a later timestamp never gets a smaller
  index.
\<close>

theorem window_index_monotone_clamped:
  "AudioAnalyzer_init au w = Inr a \<and> ms1 \<le> ms2 \<longrightarrow>
     (\<exists>i1 i2. get_window_index_for_ms a ms1 = Inr i1 \<and> get_window_index_for_ms a ms2 = Inr i2
        \<and> i1 \<le> i2
        \<and> 0 \<le> i1 \<and> i1 \<le> int (num_windows a) - 1
        \<and> 0 \<le> i2 \<and> i2 \<le> int (num_windows a) - 1)"
proof
  assume h: "AudioAnalyzer_init au w = Inr a \<and> ms1 \<le> ms2"
  then have ok: "AudioAnalyzer_init au w = Inr a" and le: "ms1 \<le> ms2" by simp_all
  from init_facts(1,2,3)[OF ok] have w: "0 < ms_per_window a" and n: "1 \<le> num_windows a"
    by simp_all
  define i1 where "i1 = clamp (py_int (real_of_int ms1 / real (ms_per_window a))) 0 (int (num_windows a) - 1)"
  define i2 where "i2 = clamp (py_int (real_of_int ms2 / real (ms_per_window a))) 0 (int (num_windows a) - 1)"
  have e: "get_window_index_for_ms a ms1 = Inr i1" "get_window_index_for_ms a ms2 = Inr i2"
    using w by (simp_all add: window_index_Inr i1_def i2_def)
  have "real_of_int ms1 / real (ms_per_window a) \<le> real_of_int ms2 / real (ms_per_window a)"
    using le w by (simp add: divide_right_mono)
  then have m: "i1 \<le> i2" unfolding i1_def i2_def by (intro clamp_mono py_int_mono)
  have r: "0 \<le> int (num_windows a) - 1" using n by simp
  from clamp_range[OF r] have "0 \<le> i1 \<and> i1 \<le> int (num_windows a) - 1"
    "0 \<le> i2 \<and> i2 \<le> int (num_windows a) - 1" by (simp_all add: i1_def i2_def)
  with e m show "\<exists>i1 i2. get_window_index_for_ms a ms1 = Inr i1 \<and> get_window_index_for_ms a ms2 = Inr i2
        \<and> i1 \<le> i2
        \<and> 0 \<le> i1 \<and> i1 \<le> int (num_windows a) - 1
        \<and> 0 \<le> i2 \<and> i2 \<le> int (num_windows a) - 1" by blast
qed

theorem window_index_monotone_clamped_witness:
  "\<exists>a. AudioAnalyzer_init example_audio WINDOW_MS = Inr a
      \<and> get_window_index_for_ms a (- 250) = Inr 0
      \<and> get_window_index_for_ms a 199 = Inr 1
      \<and> get_window_index_for_ms a 100000 = Inr 1
      \<and> int (num_windows a) - 1 = 1"
proof -
  define a where "a = projr (AudioAnalyzer_init example_audio WINDOW_MS)"
  obtain a' where "AudioAnalyzer_init example_audio WINDOW_MS = Inr a'"
    using init_succeeds[of example_audio WINDOW_MS] by (auto simp: example_audio_def WINDOW_MS_def)
  then have a: "AudioAnalyzer_init example_audio WINDOW_MS = Inr a" by (simp add: a_def)
  have v: "map_sum id (\<lambda>a. get_window_index_for_ms a (- 250)) (AudioAnalyzer_init example_audio WINDOW_MS) = Inr (Inr 0)"
    "map_sum id (\<lambda>a. get_window_index_for_ms a 199) (AudioAnalyzer_init example_audio WINDOW_MS) = Inr (Inr 1)"
    "map_sum id (\<lambda>a. get_window_index_for_ms a 100000) (AudioAnalyzer_init example_audio WINDOW_MS) = Inr (Inr 1)"
    "map_sum id num_windows (AudioAnalyzer_init example_audio WINDOW_MS) = Inr 2"
    by code_simp+
  from window_index_monotone_clamped [of example_audio WINDOW_MS a "- 250" 199] a
  obtain i1 i2 where "get_window_index_for_ms a (- 250) = Inr i1"
    "get_window_index_for_ms a 199 = Inr i2" "i1 \<le> i2" by auto
  with v a show ?thesis by auto
qed

subsection \<open>C10: the baseline is positive\<close>



end
